theory Spec2Isabelle
  imports Main "HOL-Library.Word"
begin

section \<open>Characters\<close>

text \<open>
  A C++ \<open>std::string\<close> is a sequence of bytes, here a \<open>string\<close> (a list of 8-bit
  \<open>char\<close>). The classes below are those of \<open>std::regex\<close> with the ECMAScript grammar
  in the "C" locale: \<open>\d\<close> is \<open>[0-9]\<close>, \<open>\w\<close> is \<open>[A-Za-z0-9_]\<close>, \<open>\s\<close> is the six
  white-space characters of \<open>isspace\<close>, and \<open>.\<close> is every character but a line
  terminator.
\<close>

definition newline :: char where
  "newline = CHR 0x0A"

definition dquote :: char where
  "dquote = CHR 0x22"

definition backslash :: char where
  "backslash = CHR 0x5C"

definition is_digit :: "char \<Rightarrow> bool" where
  "is_digit c = (c \<in> set ''0123456789'')"

definition is_alpha :: "char \<Rightarrow> bool" where
  "is_alpha c =
     (c \<in> set ''abcdefghijklmnopqrstuvwxyzABCDEFGHIJKLMNOPQRSTUVWXYZ'')"

definition is_word :: "char \<Rightarrow> bool" where
  "is_word c = (is_alpha c \<or> is_digit c \<or> c = CHR ''_'')"

definition is_space :: "char \<Rightarrow> bool" where
  "is_space c =
     (c \<in> set [CHR '' '', CHR 0x09, CHR 0x0A, CHR 0x0B, CHR 0x0C, CHR 0x0D])"

definition is_line_terminator :: "char \<Rightarrow> bool" where
  "is_line_terminator c = (c \<in> set [CHR 0x0A, CHR 0x0D])"

section \<open>The regular expressions of the program\<close>

text \<open>
  The program uses \<open>std::regex\<close> with the default (ECMAScript) grammar, whose matcher
  is a backtracking one: alternatives are tried in priority order, a greedy
  quantifier tries more repetitions first, a lazy one fewer. The constructors are
  those the patterns of \<open>ShaderTranspiler.cpp\<close> need.
\<close>

datatype cls =
    Lit char            \<comment> \<open>the character itself\<close>
  | Space               \<comment> \<open>\<open>\s\<close>\<close>
  | Digit               \<comment> \<open>\<open>\d\<close>\<close>
  | Word                \<comment> \<open>\<open>\w\<close>\<close>
  | Dot                 \<comment> \<open>\<open>.\<close>\<close>
  | Bracket "cls list"  \<comment> \<open>\<open>[...]\<close>: any of the members\<close>

fun in_cls :: "cls \<Rightarrow> char \<Rightarrow> bool" where
  "in_cls (Lit a) c = (c = a)"
| "in_cls Space c = is_space c"
| "in_cls Digit c = is_digit c"
| "in_cls Word c = is_word c"
| "in_cls Dot c = (\<not> is_line_terminator c)"
| "in_cls (Bracket ks) c = list_ex (\<lambda>k. in_cls k c) ks"

datatype regex =
    Eps                 \<comment> \<open>the empty pattern\<close>
  | Atom cls            \<comment> \<open>one character of a class\<close>
  | Boundary            \<comment> \<open>\<open>\b\<close>\<close>
  | Cat regex regex     \<comment> \<open>concatenation\<close>
  | Star regex          \<comment> \<open>greedy \<open>*\<close>\<close>
  | LazyStar regex      \<comment> \<open>lazy \<open>*?\<close>\<close>
  | Group nat regex     \<comment> \<open>the capture group of that number\<close>

text \<open>\<open>r+\<close> is \<open>r\<close> followed by \<open>r*\<close>; a literal string is the sequence of its characters.\<close>

definition Plus :: "regex \<Rightarrow> regex" where
  "Plus r = Cat r (Star r)"

fun lit :: "string \<Rightarrow> regex" where
  "lit [] = Eps"
| "lit (c # cs) = Cat (Atom (Lit c)) (lit cs)"

fun seq :: "regex list \<Rightarrow> regex" where
  "seq [] = Eps"
| "seq (r # rs) = Cat r (seq rs)"

type_synonym captures = "(nat \<times> string) list"

text \<open>
  \<open>\b\<close> holds where exactly one of the character before the position and the
  character at it is a word character; the ends of the text count as non-word.
\<close>

fun word_before :: "char option \<Rightarrow> bool" where
  "word_before None = False"
| "word_before (Some c) = is_word c"

fun word_at :: "string \<Rightarrow> bool" where
  "word_at [] = False"
| "word_at (c # cs) = is_word c"

text \<open>
  \<open>ms r p s caps\<close> lists, in the matcher's priority order, every way \<open>r\<close> matches a
  prefix of \<open>s\<close>, where \<open>p\<close> is the character before \<open>s\<close> in the text, if any: each
  way is the last character consumed so far, the text left, and the captures. A
  repetition does not iterate on the empty string (ECMA-262: an iteration that
  consumes nothing is not considered).
\<close>

function ms :: "regex \<Rightarrow> char option \<Rightarrow> string \<Rightarrow> captures
    \<Rightarrow> (char option \<times> string \<times> captures) list" where
  "ms Eps p s caps = [(p, s, caps)]"
| "ms (Atom k) p s caps =
     (case s of
        [] \<Rightarrow> []
      | c # cs \<Rightarrow> if in_cls k c then [(Some c, cs, caps)] else [])"
| "ms Boundary p s caps =
     (if word_before p \<noteq> word_at s then [(p, s, caps)] else [])"
| "ms (Cat r1 r2) p s caps =
     concat (map (\<lambda>(p', s', caps'). ms r2 p' s' caps') (ms r1 p s caps))"
| "ms (Star r) p s caps =
     concat (map (\<lambda>(p', s', caps').
                    if length s' < length s then ms (Star r) p' s' caps' else [])
                 (ms r p s caps))
     @ [(p, s, caps)]"
| "ms (LazyStar r) p s caps =
     (p, s, caps) #
     concat (map (\<lambda>(p', s', caps').
                    if length s' < length s then ms (LazyStar r) p' s' caps' else [])
                 (ms r p s caps))"
| "ms (Group n r) p s caps =
     map (\<lambda>(p', s', caps'). (p', s', (n, take (length s - length s') s) # caps'))
         (ms r p s caps)"
  by pat_completeness auto
termination
  by (relation "measures [\<lambda>(r, p, s, caps). size r, \<lambda>(r, p, s, caps). length s]") auto

text \<open>
  The two equations of the repetitions rewrite to themselves, so they are unfolded by
  hand where a proof needs them.
\<close>

declare ms.simps(5,6) [simp del]

text \<open>Every match consumes a prefix of the text: what is left is a suffix of it.\<close>

lemma ms_suffix:
  "(p', s', caps') \<in> set (ms r p s caps) \<Longrightarrow> \<exists>m. s = m @ s'"
proof (induction r p s caps arbitrary: p' s' caps' rule: ms.induct)
  case (1 p s caps)
  then show ?case by simp
next
  case (2 k p s caps)
  then show ?case by (auto split: list.splits if_splits)
next
  case (3 p s caps)
  then show ?case by (auto split: if_splits)
next
  case (4 r1 r2 p s caps)
  from "4.prems" obtain p1 s1 c1 where
    a: "(p1, s1, c1) \<in> set (ms r1 p s caps)" and
    b: "(p', s', caps') \<in> set (ms r2 p1 s1 c1)"
    by auto
  from "4.IH"(1)[OF a] obtain m1 where "s = m1 @ s1" by blast
  moreover from "4.IH"(2)[OF a refl refl b] obtain m2 where "s1 = m2 @ s'" by blast
  ultimately show ?case by simp
next
  case (5 r p s caps)
  show ?case
  proof (cases "(p', s', caps') = (p, s, caps)")
    case True
    then show ?thesis by simp
  next
    case False
    with "5.prems" obtain p1 s1 c1 where
      a: "(p1, s1, c1) \<in> set (ms r p s caps)" and l: "length s1 < length s" and
      b: "(p', s', caps') \<in> set (ms (Star r) p1 s1 c1)"
      by (subst (asm) ms.simps(5)) (auto split: if_splits)
    from "5.IH"(1)[OF a] obtain m1 where "s = m1 @ s1" by blast
    moreover from "5.IH"(2)[OF a refl refl l b] obtain m2 where "s1 = m2 @ s'" by blast
    ultimately show ?thesis by simp
  qed
next
  case (6 r p s caps)
  show ?case
  proof (cases "(p', s', caps') = (p, s, caps)")
    case True
    then show ?thesis by simp
  next
    case False
    with "6.prems" obtain p1 s1 c1 where
      a: "(p1, s1, c1) \<in> set (ms r p s caps)" and l: "length s1 < length s" and
      b: "(p', s', caps') \<in> set (ms (LazyStar r) p1 s1 c1)"
      by (subst (asm) ms.simps(6)) (auto split: if_splits)
    from "6.IH"(1)[OF a] obtain m1 where "s = m1 @ s1" by blast
    moreover from "6.IH"(2)[OF a refl refl l b] obtain m2 where "s1 = m2 @ s'" by blast
    ultimately show ?thesis by simp
  qed
next
  case (7 n r p s caps)
  from "7.prems" obtain c1 where "(p', s', c1) \<in> set (ms r p s caps)" by auto
  from "7.IH"[OF this] show ?case .
qed

text \<open>The least number of characters a pattern consumes.\<close>

fun min_len :: "regex \<Rightarrow> nat" where
  "min_len Eps = 0"
| "min_len (Atom k) = 1"
| "min_len Boundary = 0"
| "min_len (Cat r1 r2) = min_len r1 + min_len r2"
| "min_len (Star r) = 0"
| "min_len (LazyStar r) = 0"
| "min_len (Group n r) = min_len r"

lemma ms_min_len:
  "(p', s', caps') \<in> set (ms r p s caps) \<Longrightarrow> length s' + min_len r \<le> length s"
proof (induction r arbitrary: p s caps p' s' caps')
  case Eps
  then show ?case by simp
next
  case (Atom k)
  then show ?case by (auto split: list.splits if_splits)
next
  case Boundary
  then show ?case by (auto split: if_splits)
next
  case (Cat r1 r2)
  from Cat.prems obtain p1 s1 c1 where
    a: "(p1, s1, c1) \<in> set (ms r1 p s caps)" and
    b: "(p', s', caps') \<in> set (ms r2 p1 s1 c1)"
    by auto
  from Cat.IH(1)[OF a] Cat.IH(2)[OF b] show ?case by simp
next
  case (Star r)
  from ms_suffix[OF Star.prems] show ?case by auto
next
  case (LazyStar r)
  from ms_suffix[OF LazyStar.prems] show ?case by auto
next
  case (Group n r)
  from Group.prems obtain c1 where "(p', s', c1) \<in> set (ms r p s caps)" by auto
  from Group.IH[OF this] show ?case by simp
qed

section \<open>Searching and replacing\<close>

text \<open>
  \<open>std::regex_search\<close>: the leftmost position at which the pattern matches, and there
  the first match in priority order. The result is what \<open>std::smatch\<close> holds: the text
  before the match (\<open>prefix()\<close>), the match (\<open>[0]\<close>), the character before the rest,
  the rest (\<open>suffix()\<close>) and the capture groups.
\<close>

type_synonym smatch = "string \<times> string \<times> char option \<times> string \<times> captures"

fun regex_search :: "regex \<Rightarrow> char option \<Rightarrow> string \<Rightarrow> smatch option" where
  "regex_search r p s =
     (case ms r p s [] of
        (p', s', caps) # _ \<Rightarrow> Some ([], take (length s - length s') s, p', s', caps)
      | [] \<Rightarrow>
          (case s of
             [] \<Rightarrow> None
           | c # cs \<Rightarrow>
               map_option (\<lambda>(pre, rest). (c # pre, rest)) (regex_search r (Some c) cs)))"

declare regex_search.simps [simp del]

lemma regex_search_decomp:
  "regex_search r p s = Some (pre, m, p', suf, caps) \<Longrightarrow>
     s = pre @ m @ suf \<and> min_len r \<le> length m"
proof (induction s arbitrary: p pre)
  case Nil
  show ?case
  proof (cases "ms r p [] []")
    case Nil
    with Nil.prems show ?thesis by (simp add: regex_search.simps)
  next
    case (Cons x xs)
    obtain p1 s1 c1 where x: "x = (p1, s1, c1)" by (cases x) auto
    from Cons x have mem: "(p1, s1, c1) \<in> set (ms r p [] [])" by simp
    from ms_suffix[OF mem] have s1: "s1 = []" by simp
    from ms_min_len[OF mem] s1 have "min_len r = 0" by simp
    with Nil.prems Cons x s1 show ?thesis by (simp add: regex_search.simps)
  qed
next
  case (Cons c cs)
  show ?case
  proof (cases "ms r p (c # cs) []")
    case Nil
    with Cons.prems obtain pre' where
      pre: "pre = c # pre'" and
      rec: "regex_search r (Some c) cs = Some (pre', m, p', suf, caps)"
      by (subst (asm) regex_search.simps) (auto split: option.splits)
    from Cons.IH[OF rec] pre show ?thesis by simp
  next
    case (Cons x xs)
    obtain p1 s1 c1 where x: "x = (p1, s1, c1)" by (cases x) auto
    from Cons x have mem: "(p1, s1, c1) \<in> set (ms r p (c # cs) [])" by simp
    from ms_suffix[OF mem] obtain m1 where m1: "c # cs = m1 @ s1" by blast
    from Cons.prems Cons x have
      eq: "pre = []" "m = take (length (c # cs) - length s1) (c # cs)" "suf = s1"
      by (subst (asm) regex_search.simps, simp)+
    from m1 have "take (length (c # cs) - length s1) (c # cs) = m1" by simp
    with eq m1 ms_min_len[OF mem] show ?thesis by simp
  qed
qed

text \<open>\<open>match[n].str()\<close>: the text of a capture group, empty when the group did not match.\<close>

definition sub_match :: "captures \<Rightarrow> nat \<Rightarrow> string" where
  "sub_match caps n = (case map_of caps n of None \<Rightarrow> [] | Some g \<Rightarrow> g)"

definition digit_val :: "char \<Rightarrow> nat" where
  "digit_val d = of_char d - 48"

text \<open>
  The replacement text of \<open>std::regex_replace\<close> (the default, ECMAScript format):
  \<open>$n\<close> stands for capture group \<open>n\<close>, \<open>$&\<close> for the whole match and \<open>$$\<close> for a
  dollar sign. The other forms (two digits, the text before or after the match)
  are left out: no format string of the program uses them.
\<close>

fun format_repl :: "string \<Rightarrow> string \<Rightarrow> captures \<Rightarrow> string" where
  "format_repl [] m caps = []"
| "format_repl [c] m caps = [c]"
| "format_repl (c # d # cs) m caps =
     (if c = CHR ''$'' \<and> is_digit d then sub_match caps (digit_val d) @ format_repl cs m caps
      else if c = CHR ''$'' \<and> d = CHR ''&'' then m @ format_repl cs m caps
      else if c = CHR ''$'' \<and> d = CHR ''$'' then CHR ''$'' # format_repl cs m caps
      else c # format_repl (d # cs) m caps)"

text \<open>
  \<open>std::regex_replace\<close> replaces every match, found from left to right, each search
  starting where the previous match ended (with the character before it known, so
  that \<open>\b\<close> sees it), and copies the text between the matches. After an empty match
  the search moves on by one character; every pattern of the program consumes at
  least one character (\<open>min_len\<close>), so no match of theirs is empty.
\<close>

function regex_replace :: "regex \<Rightarrow> string \<Rightarrow> char option \<Rightarrow> string \<Rightarrow> string" where
  "regex_replace r fmt p s =
     (case regex_search r p s of
        None \<Rightarrow> s
      | Some (pre, m, p', suf, caps) \<Rightarrow>
          pre @ format_repl fmt m caps @
          (if m = [] then
             (case suf of
                [] \<Rightarrow> []
              | c # cs \<Rightarrow> c # regex_replace r fmt (Some c) cs)
           else regex_replace r fmt p' suf))"
  by pat_completeness auto
termination
proof (relation "measure (\<lambda>(r, fmt, p, s). length s)")
  show "wf (measure (\<lambda>(r, fmt, p, s). length s))" by simp
next
  fix r :: regex and fmt :: string and p :: "char option" and s :: string
    and x2 pre y m ya p' yb suf caps c cs
  assume "regex_search r p s = Some x2" "(pre, y) = x2" "(m, ya) = y" "(p', yb) = ya"
    "(suf, caps) = yb" "m = []" "suf = c # cs"
  then have "regex_search r p s = Some (pre, m, p', suf, caps)" by auto
  from regex_search_decomp[OF this] \<open>suf = c # cs\<close>
  show "((r, fmt, Some c, cs), (r, fmt, p, s)) \<in> measure (\<lambda>(r, fmt, p, s). length s)"
    by simp
next
  fix r :: regex and fmt :: string and p :: "char option" and s :: string
    and x2 pre y m ya p' yb suf caps
  assume "regex_search r p s = Some x2" "(pre, y) = x2" "(m, ya) = y" "(p', yb) = ya"
    "(suf, caps) = yb" "m \<noteq> []"
  then have "regex_search r p s = Some (pre, m, p', suf, caps)" by auto
  from regex_search_decomp[OF this] \<open>m \<noteq> []\<close>
  show "((r, fmt, p', suf), (r, fmt, p, s)) \<in> measure (\<lambda>(r, fmt, p, s). length s)"
    by simp
qed

declare regex_replace.simps [simp del]

text \<open>\<open>std::string::find\<close>: the first position of a substring, \<open>npos\<close> being \<open>None\<close>.\<close>

fun starts_with :: "string \<Rightarrow> string \<Rightarrow> bool" where
  "starts_with s [] = True"
| "starts_with [] (c # cs) = False"
| "starts_with (x # xs) (c # cs) = (x = c \<and> starts_with xs cs)"

fun find_str :: "string \<Rightarrow> string \<Rightarrow> nat option" where
  "find_str [] pat = (if pat = [] then Some 0 else None)"
| "find_str (x # xs) pat =
     (if starts_with (x # xs) pat then Some 0 else map_option Suc (find_str xs pat))"

section \<open>The data model (\<open>ShaderTranspiler.h\<close>)\<close>

datatype ShaderTarget = GLSL | HLSL | Vulkan | Metal

datatype ShaderStage = Vertex | Fragment

record UniformBinding =
  u_name :: string
  u_type :: string
  u_binding :: int
  u_set :: int

record VertexAttribute =
  a_name :: string
  a_type :: string
  a_location :: int

record TranspilationResult =
  success :: bool
  "output" :: string
  binary :: "32 word list"
  errorMessage :: string

text \<open>
  What a call can end in besides a returned value: a C++ exception derived from
  \<open>std::exception\<close> (with its \<open>what()\<close> text, which the implementation chooses), or
  undefined behaviour, which no \<open>catch\<close> intercepts.
\<close>

datatype fault = Std_exception string | Undefined_behaviour

section \<open>Declaration extractor\<close>

text \<open>The pattern \<^verbatim>\<open>uniform\s+(\w+)\s+(\w+);\<close> of \<open>ExtractUniforms\<close>.\<close>

definition uniformRegex :: regex where
  "uniformRegex =
     seq [lit ''uniform'', Plus (Atom Space), Group 1 (Plus (Atom Word)),
          Plus (Atom Space), Group 2 (Plus (Atom Word)), lit '';'']"

text \<open>
  The pattern
  \<^verbatim>\<open>layout\s*\(\s*location\s*=\s*(\d+)\s*\)\s*in\s+(\w+)\s+(\w+);\<close>
  of \<open>ExtractAttributes\<close> and \<open>ConvertAttributeDeclarations\<close>.
\<close>

definition attrRegex :: regex where
  "attrRegex =
     seq [lit ''layout'', Star (Atom Space), lit ''('', Star (Atom Space),
          lit ''location'', Star (Atom Space), lit ''='', Star (Atom Space),
          Group 1 (Plus (Atom Digit)), Star (Atom Space), lit '')'', Star (Atom Space),
          lit ''in'', Plus (Atom Space), Group 2 (Plus (Atom Word)),
          Plus (Atom Space), Group 3 (Plus (Atom Word)), lit '';'']"

lemma min_len_uniformRegex: "0 < min_len uniformRegex"
  by (simp add: uniformRegex_def Plus_def)

lemma min_len_attrRegex: "0 < min_len attrRegex"
  by (simp add: attrRegex_def Plus_def)

text \<open>
  \<open>static_cast<int>\<close> of a \<open>size_t\<close>: the value modulo \<open>2^32\<close>, read as two's
  complement.
\<close>

definition static_cast_int :: "nat \<Rightarrow> int" where
  "static_cast_int n = sint (word_of_nat n :: 32 word)"

text \<open>
  The loop of \<open>ExtractUniforms\<close>: each round searches the text from \<open>searchStart\<close> on
  (a fresh search: no character before it is known), appends the binding found and
  moves \<open>searchStart\<close> to the end of the match.
\<close>

function ExtractUniforms_loop :: "string \<Rightarrow> UniformBinding list \<Rightarrow> UniformBinding list" where
  "ExtractUniforms_loop searchStart uniforms =
     (case regex_search uniformRegex None searchStart of
        None \<Rightarrow> uniforms
      | Some (pre, m, p', suf, caps) \<Rightarrow>
          ExtractUniforms_loop suf
            (uniforms @
             [\<lparr>u_name = sub_match caps 2, u_type = sub_match caps 1,
               u_binding = static_cast_int (length uniforms), u_set = 0\<rparr>]))"
  by pat_completeness auto
termination
proof (relation "measure (\<lambda>(s, uniforms). length s)")
  show "wf (measure (\<lambda>(s, uniforms). length s))" by simp
next
  fix searchStart :: string and uniforms :: "UniformBinding list"
    and x2 pre y m ya p' yb suf caps
  assume "regex_search uniformRegex None searchStart = Some x2" "(pre, y) = x2"
    "(m, ya) = y" "(p', yb) = ya" "(suf, caps) = yb"
  then have "regex_search uniformRegex None searchStart = Some (pre, m, p', suf, caps)"
    by auto
  from regex_search_decomp[OF this] min_len_uniformRegex
  show "((suf, uniforms @
           [\<lparr>u_name = sub_match caps 2, u_type = sub_match caps 1,
             u_binding = static_cast_int (length uniforms), u_set = 0\<rparr>]),
         (searchStart, uniforms)) \<in> measure (\<lambda>(s, uniforms). length s)"
    by auto
qed

declare ExtractUniforms_loop.simps [simp del]

definition ExtractUniforms :: "string \<Rightarrow> UniformBinding list" where
  "ExtractUniforms glslSource = ExtractUniforms_loop glslSource []"

text \<open>
  \<open>std::stoi\<close> on the digits a \<open>\d+\<close> group captured: their decimal value, or the
  exception \<open>std::out_of_range\<close> when it is above \<open>INT_MAX\<close>, or
  \<open>std::invalid_argument\<close> when there is no digit to read.
\<close>

definition dec_value :: "string \<Rightarrow> int" where
  "dec_value ds = foldl (\<lambda>n d. 10 * n + int (digit_val d)) 0 ds"

definition INT_MAX :: int where
  "INT_MAX = 2147483647"

definition stoi :: "string \<Rightarrow> fault + int" where
  "stoi str =
     (let ds = takeWhile is_digit str in
      if ds = [] then Inl (Std_exception ''invalid stoi argument'')
      else if INT_MAX < dec_value ds then Inl (Std_exception ''stoi argument out of range'')
      else Inr (dec_value ds))"

text \<open>The loop of \<open>ExtractAttributes\<close>; an exception of \<open>std::stoi\<close> leaves it at once.\<close>

function ExtractAttributes_loop :: "string \<Rightarrow> VertexAttribute list
    \<Rightarrow> fault + VertexAttribute list" where
  "ExtractAttributes_loop searchStart attributes =
     (case regex_search attrRegex None searchStart of
        None \<Rightarrow> Inr attributes
      | Some (pre, m, p', suf, caps) \<Rightarrow>
          (case stoi (sub_match caps 1) of
             Inl e \<Rightarrow> Inl e
           | Inr location \<Rightarrow>
               ExtractAttributes_loop suf
                 (attributes @
                  [\<lparr>a_name = sub_match caps 3, a_type = sub_match caps 2,
                    a_location = location\<rparr>])))"
  by pat_completeness auto
termination
proof (relation "measure (\<lambda>(s, attributes). length s)")
  show "wf (measure (\<lambda>(s, attributes). length s))" by simp
next
  fix searchStart :: string and attributes :: "VertexAttribute list"
    and x2 pre y m ya p' yb suf caps and location :: int
  assume "regex_search attrRegex None searchStart = Some x2" "(pre, y) = x2"
    "(m, ya) = y" "(p', yb) = ya" "(suf, caps) = yb"
  then have "regex_search attrRegex None searchStart = Some (pre, m, p', suf, caps)"
    by auto
  from regex_search_decomp[OF this] min_len_attrRegex
  show "((suf, attributes @
           [\<lparr>a_name = sub_match caps 3, a_type = sub_match caps 2,
             a_location = location\<rparr>]),
         (searchStart, attributes)) \<in> measure (\<lambda>(s, attributes). length s)"
    by auto
qed

declare ExtractAttributes_loop.simps [simp del]

definition ExtractAttributes :: "string \<Rightarrow> fault + VertexAttribute list" where
  "ExtractAttributes glslSource = ExtractAttributes_loop glslSource []"

section \<open>Textual rewrites\<close>

fun GetTargetVersionString :: "ShaderTarget \<Rightarrow> string" where
  "GetTargetVersionString GLSL = ''#version 330 core''"
| "GetTargetVersionString HLSL = ''// HLSL Shader (Target: Direct3D 11)''"
| "GetTargetVersionString Vulkan = ''#version 450 core''"
| "GetTargetVersionString Metal = ''// Metal Shader Language''"

text \<open>\<^verbatim>\<open>\bname\b\<close>: a name as a whole word.\<close>

definition token :: "string \<Rightarrow> regex" where
  "token name = seq [Boundary, lit name, Boundary]"

text \<open>\<open>std::regex_replace(text, std::regex(pattern), format)\<close> on a whole string.\<close>

definition replace_all :: "string \<Rightarrow> regex \<Rightarrow> string \<Rightarrow> string" where
  "replace_all text r fmt = regex_replace r fmt None text"

definition ReplaceGLSLBuiltins :: "string \<Rightarrow> ShaderTarget \<Rightarrow> ShaderStage \<Rightarrow> string" where
  "ReplaceGLSLBuiltins source target stage =
     (if target = HLSL then
        (if stage = Vertex then replace_all source (token ''gl_Position'') ''position''
         else replace_all source (token ''gl_FragColor'') ''output'')
      else if target = Metal then
        (if stage = Vertex then replace_all source (token ''gl_Position'') ''out.position''
         else replace_all source (token ''gl_FragColor'') ''out.color'')
      else source)"

text \<open>The pattern \<^verbatim>\<open>uniform\s+.*?\<close> of \<open>ConvertUniformDeclarations\<close>.\<close>

definition uniformStripRegex :: regex where
  "uniformStripRegex = seq [lit ''uniform'', Plus (Atom Space), LazyStar (Atom Dot)]"

definition hlslType :: "string \<Rightarrow> string" where
  "hlslType ty =
     (if ty = ''vec2'' then ''float2''
      else if ty = ''vec3'' then ''float3''
      else if ty = ''vec4'' then ''float4''
      else if ty = ''mat3'' then ''float3x3''
      else if ty = ''mat4'' then ''float4x4''
      else ty)"

definition cbuffer_member :: "UniformBinding \<Rightarrow> string" where
  "cbuffer_member uniform =
     ''    '' @ hlslType (u_type uniform) @ '' '' @ u_name uniform @ '';'' @ [newline]"

definition cbuffer_header :: string where
  "cbuffer_header = ''cbuffer Uniforms : register(b0)'' @ [newline] @ ''{'' @ [newline]"

definition ConvertUniformDeclarations :: "string \<Rightarrow> ShaderTarget \<Rightarrow> string" where
  "ConvertUniformDeclarations source target =
     (if target \<noteq> HLSL then source
      else
        let uniforms = ExtractUniforms source in
        if uniforms = [] then source
        else
          let ss = cbuffer_header @ concat (map cbuffer_member uniforms);
              cleanedSource = replace_all source uniformStripRegex []
          in ss @ cleanedSource)"

definition ConvertAttributeDeclarations ::
    "string \<Rightarrow> ShaderTarget \<Rightarrow> ShaderStage \<Rightarrow> string" where
  "ConvertAttributeDeclarations source target stage =
     (if stage \<noteq> Vertex then source
      else if target = HLSL then replace_all source attrRegex ''$2 $3 : TEXCOORD$1;''
      else if target = Metal then replace_all source attrRegex ''$2 $3 [[attribute($1)]];''
      else source)"

text \<open>
  The patterns \<^verbatim>\<open>\bout\s+(\w+)\s+(\w+);\<close> and \<^verbatim>\<open>\bin\s+(\w+)\s+(\w+);\<close> of
  \<open>ConvertVaryingDeclarations\<close>.
\<close>

definition varyingRegex :: "string \<Rightarrow> regex" where
  "varyingRegex qualifier =
     seq [Boundary, lit qualifier, Plus (Atom Space), Group 1 (Plus (Atom Word)),
          Plus (Atom Space), Group 2 (Plus (Atom Word)), lit '';'']"

definition ConvertVaryingDeclarations ::
    "string \<Rightarrow> ShaderTarget \<Rightarrow> ShaderStage \<Rightarrow> string" where
  "ConvertVaryingDeclarations source target stage =
     (if target = HLSL then
        (if stage = Vertex then replace_all source (varyingRegex ''out'') ''$1 $2 : TEXCOORD0;''
         else replace_all source (varyingRegex ''in'') ''$1 $2 : TEXCOORD0;'')
      else if target = Metal then
        (if stage = Vertex
         then replace_all source (varyingRegex ''out'') ''$1 $2 [[user(locn0)]];''
         else source)
      else source)"

text \<open>The pattern \<^verbatim>\<open>(\w+)\s*\*\s*([\w\d\(\).]+)\<close> of \<open>ConvertMatrixOperations\<close>.\<close>

definition mathRegex :: regex where
  "mathRegex =
     seq [Group 1 (Plus (Atom Word)), Star (Atom Space), lit ''*'', Star (Atom Space),
          Group 2 (Plus (Atom (Bracket [Word, Digit, Lit CHR ''('', Lit CHR '')'',
                                         Lit CHR ''.''])))]"

definition ConvertMatrixOperations :: "string \<Rightarrow> ShaderTarget \<Rightarrow> string" where
  "ConvertMatrixOperations source target =
     (if target \<noteq> HLSL then source
      else replace_all source mathRegex ''mul($1, $2)'')"

text \<open>A chain of replacements, each on the result of the one before.\<close>

fun replace_tokens :: "string \<Rightarrow> (string \<times> string) list \<Rightarrow> string" where
  "replace_tokens text [] = text"
| "replace_tokens text ((name, fmt) # rest) =
     replace_tokens (replace_all text (token name) fmt) rest"

definition ConvertBuiltinFunctions :: "string \<Rightarrow> ShaderTarget \<Rightarrow> string" where
  "ConvertBuiltinFunctions source target =
     (if target = HLSL then
        replace_tokens source
          [(''normalize'', ''normalize''), (''dot'', ''dot''), (''max'', ''max''),
           (''transpose'', ''transpose''), (''inverse'', ''inverse''),
           (''mat3'', ''float3x3''), (''mat4'', ''float4x4''), (''vec2'', ''float2''),
           (''vec3'', ''float3''), (''vec4'', ''float4'')]
      else if target = Metal then
        replace_tokens source
          [(''mat3'', ''float3x3''), (''mat4'', ''float4x4''), (''vec2'', ''float2''),
           (''vec3'', ''float3''), (''vec4'', ''float4'')]
      else source)"

section \<open>The world outside: files, the environment, processes, the log\<close>

text \<open>
  The converters write and read temporary files, read the environment variable
  \<open>VULKAN_SDK\<close>, run external tools with \<open>std::system\<close> and report to the logger.
  The state of all that is passed along explicitly:
  \<^item> \<open>vulkan_sdk\<close> is what \<open>std::getenv("VULKAN_SDK")\<close> returns (\<open>None\<close>: a null pointer);
  \<^item> \<open>files\<close> maps a path to the content of the file there, if there is one;
  \<^item> \<open>writable\<close> tells whether opening a path for writing succeeds;
  \<^item> \<open>run_process\<close> is the behaviour of the external tools: from the commands run so
    far, the command line and the files, the exit status and the files afterwards;
  \<^item> \<open>commands\<close> is the list of command lines given to \<open>std::system\<close> so far;
  \<^item> \<open>log_events\<close> is the list of calls of \<open>Logger::Log\<close> so far.
\<close>

text \<open>
  The two levels \<open>Transpile\<close> logs at; the enumeration itself is declared in
  \<open>Core/Logger.h\<close>.
\<close>

datatype LogLevel = Info | Error

type_synonym file_system = "string \<Rightarrow> string option"

record world =
  vulkan_sdk :: "string option"
  files :: file_system
  writable :: "string \<Rightarrow> bool"
  run_process :: "string list \<Rightarrow> string \<Rightarrow> file_system \<Rightarrow> int \<times> file_system"
  commands :: "string list"
  log_events :: "(LogLevel \<times> string) list"

text \<open>
  \<open>std::ofstream f(path); f << content; f.close();\<close> -- when the file cannot be opened
  the stream is in a failed state and nothing is written.
\<close>

definition ofstream_write :: "string \<Rightarrow> string \<Rightarrow> world \<Rightarrow> world" where
  "ofstream_write path content w =
     (if writable w path then w\<lparr>files := (files w)(path \<mapsto> content)\<rparr> else w)"

text \<open>\<open>std::system(command)\<close>: the exit status, and the world after the tool has run.\<close>

definition std_system :: "string \<Rightarrow> world \<Rightarrow> int \<times> world" where
  "std_system command w =
     (let (status, fs) = run_process w (commands w) command (files w)
      in (status, w\<lparr>files := fs, commands := commands w @ [command]\<rparr>))"

definition Logger_Log :: "LogLevel \<Rightarrow> string \<Rightarrow> world \<Rightarrow> world" where
  "Logger_Log level message w = w\<lparr>log_events := log_events w @ [(level, message)]\<rparr>"

text \<open>
  Reading a whole text file through \<open>std::istreambuf_iterator\<close>: the empty string when
  the file cannot be opened.
\<close>

definition read_text :: "string \<Rightarrow> world \<Rightarrow> string" where
  "read_text path w = (case files w path of None \<Rightarrow> [] | Some content \<Rightarrow> content)"

text \<open>
  The words of a file of whole words, as \<open>binFile.read((char*)buffer.data(), size)\<close>
  leaves them in a vector of \<open>size / 4\<close> words: each word is four bytes of the file,
  the least significant first (the byte order of the machines the program is built
  for). What the read does on a file with bytes left over is in \<open>TranspileToVulkan\<close>.
\<close>

definition le_word :: "char \<Rightarrow> char \<Rightarrow> char \<Rightarrow> char \<Rightarrow> 32 word" where
  "le_word b0 b1 b2 b3 =
     word_of_nat (of_char b0 + 256 * of_char b1 + 65536 * of_char b2 + 16777216 * of_char b3)"

fun read_words :: "string \<Rightarrow> 32 word list" where
  "read_words (b0 # b1 # b2 # b3 # bs) = le_word b0 b1 b2 b3 # read_words bs"
| "read_words bs = []"

section \<open>Per-target converters\<close>

definition tab :: char where
  "tab = CHR 0x09"

text \<open>The raw string literal that \<open>TranspileToHLSL\<close> holds for the inverse function.\<close>

definition inverse_placeholder :: string where
  "inverse_placeholder =
     [newline] @ replicate 4 tab @ ''float4x4 inverse(float4x4 m) {'' @
     [newline] @ replicate 5 tab @ ''// In a real engine, you'' @ [CHR 0x27] @
       ''d inject a full matrix inversion here'' @
     [newline] @ replicate 5 tab @ ''// or pass the inverse matrix as a separate uniform.'' @
     [newline] @ replicate 5 tab @
       ''return m; // Placeholder: this will stop the error but math will be wrong'' @
     [newline] @ replicate 4 tab @ ''}''"

text \<open>The pattern \<^verbatim>\<open>#version\s+\d+\s*\n\<close> of \<open>TranspileToHLSL\<close>.\<close>

definition versionRegex :: regex where
  "versionRegex =
     seq [lit ''#version'', Plus (Atom Space), Plus (Atom Digit), Star (Atom Space),
          lit [newline]]"

text \<open>
  Every pattern the program replaces with consumes at least one character, so a match
  of it is never empty.
\<close>

lemma regex_search_nonempty:
  "regex_search r p s = Some (pre, m, p', suf, caps) \<Longrightarrow> 0 < min_len r \<Longrightarrow> m \<noteq> []"
  using regex_search_decomp[of r p s pre m p' suf caps] by auto

lemma min_len_lit: "min_len (lit w) = length w"
  by (induction w) simp_all

lemma patterns_consume:
  "0 < min_len versionRegex"
  "0 < min_len uniformStripRegex"
  "0 < min_len (varyingRegex qualifier)"
  "0 < min_len mathRegex"
  "name \<noteq> [] \<Longrightarrow> 0 < min_len (token name)"
  by (simp_all add: versionRegex_def uniformStripRegex_def varyingRegex_def mathRegex_def
      token_def Plus_def min_len_lit)

text \<open>The text \<open>TranspileToHLSL\<close> has built when it reaches the banner: lines 92 to 100.\<close>

definition hlsl_converted :: "string \<Rightarrow> ShaderStage \<Rightarrow> string" where
  "hlsl_converted glslSource stage =
     (let cleanedSource = replace_all glslSource versionRegex [];
          converted = ConvertUniformDeclarations cleanedSource HLSL;
          converted = ConvertAttributeDeclarations converted HLSL stage;
          converted = ConvertVaryingDeclarations converted HLSL stage;
          converted = ConvertBuiltinFunctions converted HLSL;
          converted = ConvertMatrixOperations converted HLSL;
          converted = ReplaceGLSLBuiltins converted HLSL stage
      in converted)"

text \<open>The command line of the validator (lines 124 to 129), from what \<open>getenv\<close> gave.\<close>

definition hlsl_tempPath :: string where
  "hlsl_tempPath = ''Saved/ShaderCache/validate.hlsl''"

definition dxc_command :: "string option \<Rightarrow> ShaderStage \<Rightarrow> string" where
  "dxc_command sdkEnv stage =
     (let sdkPath = (case sdkEnv of Some path \<Rightarrow> path | None \<Rightarrow> ''C:/VulkanSDK/default'');
          targetProfile = (if stage = Vertex then ''vs_6_0'' else ''ps_6_0'')
      in [dquote] @ sdkPath @ [backslash] @ ''Bin'' @ [backslash] @ ''dxc.exe'' @ [dquote] @
         '' -T '' @ targetProfile @ '' -E main '' @ hlsl_tempPath)"

definition TranspileToHLSL ::
    "string \<Rightarrow> ShaderStage \<Rightarrow> world \<Rightarrow> (fault + TranspilationResult) \<times> world" where
  "TranspileToHLSL glslSource stage w =
     (let converted = hlsl_converted glslSource stage;
          hlsl = GetTargetVersionString HLSL @ [newline];
          hlsl = (if find_str hlsl ''inverse'' \<noteq> None then inverse_placeholder @ hlsl
                  else hlsl);
          hlsl = hlsl @ converted;
          w1 = ofstream_write hlsl_tempPath hlsl w;
          cmd = dxc_command (vulkan_sdk w1) stage;
          (status, w2) = std_system cmd w1
      in if status \<noteq> 0
         then (Inr \<lparr>success = False, output = hlsl, binary = [],
                    errorMessage = ''DXC Validation Failed! Check shader syntax.''\<rparr>, w2)
         else (Inr \<lparr>success = True, output = hlsl, binary = [], errorMessage = []\<rparr>, w2))"

text \<open>
  \<open>TranspileToVulkan\<close>: the text with its header, the two temporary paths, the
  command line of the assembler, and the run itself (lines 141 to 152), which writes
  the input file first and gives the exit status.
\<close>

definition vulkan_text :: "string \<Rightarrow> string" where
  "vulkan_text glslSource = ''#version 450 core'' @ [newline, newline] @ glslSource"

definition vulkan_tempIn :: string where
  "vulkan_tempIn = ''Saved/ShaderCache/temp_input.glsl''"

definition vulkan_tempOut :: string where
  "vulkan_tempOut = ''Saved/ShaderCache/temp_input.spv''"

definition glslang_command :: "string option \<Rightarrow> string" where
  "glslang_command sdkEnv =
     (let sdkPath = (case sdkEnv of Some path \<Rightarrow> path
                     | None \<Rightarrow> ''C:/Program Files/VulkanSDK/1.4.313.1'')
      in [dquote] @ sdkPath @ ''/Bin/glslang.exe'' @ [dquote] @ '' -V '' @ vulkan_tempIn @
         '' -o '' @ vulkan_tempOut)"

definition run_glslang :: "string \<Rightarrow> world \<Rightarrow> int \<times> world" where
  "run_glslang glslSource w =
     (let w1 = ofstream_write vulkan_tempIn (vulkan_text glslSource) w
      in std_system (glslang_command (vulkan_sdk w1)) w1)"

text \<open>
  When the assembled file cannot be opened, \<open>tellg()\<close> is \<open>-1\<close>; divided by the
  unsigned \<open>sizeof(uint32_t)\<close> that is a vector size no allocation can serve, and the
  constructor of the vector throws. When the file is there, line 158 makes a vector of
  \<open>size / 4\<close> words and line 159 reads all \<open>size\<close> bytes into it: with a size that is
  not a multiple of 4 the read writes past the end of the vector, which is undefined
  behaviour.
\<close>

definition TranspileToVulkan ::
    "string \<Rightarrow> ShaderStage \<Rightarrow> world \<Rightarrow> (fault + TranspilationResult) \<times> world" where
  "TranspileToVulkan glslSource stage w =
     (let out = vulkan_text glslSource;
          (status, w2) = run_glslang glslSource w
      in if status = 0 then
           (case files w2 vulkan_tempOut of
              None \<Rightarrow> (Inl (Std_exception ''bad allocation''), w2)
            | Some bytes \<Rightarrow>
                if length bytes mod 4 = 0
                then (Inr \<lparr>success = True, output = out, binary = read_words bytes,
                           errorMessage = ''SPIR-V compilation success!''\<rparr>, w2)
                else (Inl Undefined_behaviour, w2))
         else (Inr \<lparr>success = True, output = [], binary = [],
                    errorMessage = ''SPIR-V compilation failed!''\<rparr>, w2))"

text \<open>
  \<open>TranspileToMetal\<close>, after its call of \<open>TranspileToVulkan\<close> has returned \<open>vResult\<close>
  (lines 170 to 185). \<open>std::string sdkPath = std::getenv("VULKAN_SDK")\<close> constructs a
  string from a null pointer when the variable is not set: undefined behaviour.
\<close>

definition metal_tempSpv :: string where
  "metal_tempSpv = ''Saved/ShaderCache/temp_vulkan.spv''"

definition metal_tempMetal :: string where
  "metal_tempMetal = ''Saved/ShaderCache/temp_output.metal''"

definition spirv_cross_command :: "string \<Rightarrow> string" where
  "spirv_cross_command sdkPath =
     [dquote] @ sdkPath @ ''/Bin/spirv-cross.exe'' @ [dquote] @ '' -V '' @ metal_tempSpv @
     '' -o '' @ metal_tempMetal"

definition Metal_from_Vulkan ::
    "TranspilationResult \<Rightarrow> world \<Rightarrow> (fault + TranspilationResult) \<times> world" where
  "Metal_from_Vulkan vResult w =
     (if \<not> success vResult then (Inr vResult, w)
      else
        case vulkan_sdk w of
          None \<Rightarrow> (Inl Undefined_behaviour, w)
        | Some sdkPath \<Rightarrow>
            let (status, w2) = std_system (spirv_cross_command sdkPath) w
            in if status = 0
               then (Inr \<lparr>success = True, output = read_text metal_tempMetal w2, binary = [],
                          errorMessage = ''Metal transpilation success!''\<rparr>, w2)
               else (Inr \<lparr>success = False, output = [], binary = [],
                          errorMessage = ''Metal transpilation failed!''\<rparr>, w2))"

definition TranspileToMetal ::
    "string \<Rightarrow> ShaderStage \<Rightarrow> world \<Rightarrow> (fault + TranspilationResult) \<times> world" where
  "TranspileToMetal glslSource stage w =
     (case TranspileToVulkan glslSource stage w of
        (Inl e, w1) \<Rightarrow> (Inl e, w1)
      | (Inr vResult, w1) \<Rightarrow> Metal_from_Vulkan vResult w1)"

section \<open>Transpiler facade\<close>

text \<open>
  \<open>Transpile\<close>. The \<open>default\<close> branch of its \<open>switch\<close> has no counterpart: the four
  constructors of \<open>ShaderTarget\<close> are all its values. The \<open>catch\<close> turns an exception
  into a failure result; what the converter did to the world before it threw stays
  done.
\<close>

definition dispatch ::
    "string \<Rightarrow> ShaderTarget \<Rightarrow> ShaderStage \<Rightarrow> world
      \<Rightarrow> (fault + TranspilationResult) \<times> world" where
  "dispatch glslSource target stage w =
     (case target of
        GLSL \<Rightarrow> (Inr \<lparr>success = True, output = glslSource, binary = [],
                        errorMessage = []\<rparr>, w)
      | HLSL \<Rightarrow> TranspileToHLSL glslSource stage w
      | Vulkan \<Rightarrow> TranspileToVulkan glslSource stage w
      | Metal \<Rightarrow> TranspileToMetal glslSource stage w)"

definition Transpile ::
    "string \<Rightarrow> ShaderTarget \<Rightarrow> ShaderStage \<Rightarrow> world
      \<Rightarrow> (fault + TranspilationResult) \<times> world" where
  "Transpile glslSource target stage w =
     (if glslSource = [] then
        (Inr \<lparr>success = False, output = [], binary = [],
              errorMessage = ''Input shader source is empty''\<rparr>, w)
      else if find_str glslSource ''{'' = None \<or> find_str glslSource ''}'' = None then
        (Inr \<lparr>success = False, output = [], binary = [],
              errorMessage =
                ''ERROR: Missing curly braces in shader source. Please fix the problem.''\<rparr>,
         w)
      else
        (case dispatch glslSource target stage w of
           (Inr result, w1) \<Rightarrow>
             (Inr result,
              if success result
              then Logger_Log Info ''Shader transpilation successful'' w1
              else Logger_Log Error
                     (''Shader transpilation failed: '' @ errorMessage result) w1)
         | (Inl (Std_exception what), w1) \<Rightarrow>
             (Inr \<lparr>success = False, output = [], binary = [],
                   errorMessage = ''Transpilation exception: '' @ what\<rparr>, w1)
         | (Inl Undefined_behaviour, w1) \<Rightarrow> (Inl Undefined_behaviour, w1)))"

definition TranspileProgram ::
    "string \<Rightarrow> string \<Rightarrow> ShaderTarget \<Rightarrow> world
      \<Rightarrow> (fault + TranspilationResult) \<times> world" where
  "TranspileProgram vertexSource fragmentSource target w =
     (case Transpile vertexSource target Vertex w of
        (Inl e, w1) \<Rightarrow> (Inl e, w1)
      | (Inr vertResult, w1) \<Rightarrow>
          if \<not> success vertResult then (Inr vertResult, w1)
          else
            (case Transpile fragmentSource target Fragment w1 of
               (Inl e, w2) \<Rightarrow> (Inl e, w2)
             | (Inr fragResult, w2) \<Rightarrow>
                 if \<not> success fragResult then (Inr fragResult, w2)
                 else
                   let combined = ''// === VERTEX SHADER ==='' @ [newline] @
                                  output vertResult @ [newline, newline] @
                                  ''// === FRAGMENT SHADER ==='' @ [newline] @
                                  output fragResult
                   in (Inr \<lparr>success = True, output = combined, binary = [],
                             errorMessage = []\<rparr>, w2)))"

section \<open>Occurrences of a pattern\<close>

text \<open>
  The occurrences of a pattern in a text, as a reader counts them: the leftmost
  match, then the leftmost match in what follows it, and so on; each is given by its
  capture groups. (An empty match would end the list; the patterns of the extractor
  have none.)
\<close>

function occurrences :: "regex \<Rightarrow> string \<Rightarrow> captures list" where
  "occurrences r s =
     (case regex_search r None s of
        None \<Rightarrow> []
      | Some (pre, m, p', suf, caps) \<Rightarrow>
          caps # (if m = [] then [] else occurrences r suf))"
  by pat_completeness auto
termination
proof (relation "measure (\<lambda>(r, s). length s)")
  show "wf (measure (\<lambda>(r, s). length s))" by simp
next
  fix r :: regex and s :: string and x2 pre y m ya p' yb suf caps
  assume "regex_search r None s = Some x2" "(pre, y) = x2" "(m, ya) = y" "(p', yb) = ya"
    "(suf, caps) = yb" "m \<noteq> []"
  then have "regex_search r None s = Some (pre, m, p', suf, caps)" by auto
  from regex_search_decomp[OF this] \<open>m \<noteq> []\<close>
  show "((r, suf), (r, s)) \<in> measure (\<lambda>(r, s). length s)" by simp
qed

declare occurrences.simps [simp del]

lemma occurrences_None: "regex_search r None s = None \<Longrightarrow> occurrences r s = []"
  by (subst occurrences.simps) simp

lemma occurrences_Some:
  "regex_search r None s = Some (pre, m, p', suf, caps) \<Longrightarrow> 0 < min_len r \<Longrightarrow>
     occurrences r s = caps # occurrences r suf"
  using regex_search_decomp[of r None s pre m p' suf caps]
  by (subst occurrences.simps) auto

section \<open>A sample world\<close>

text \<open>
  A world for concrete runs: no file yet, every path writable, and tools that leave
  an eight-byte file at the assembler's output path and exit with the given status.
\<close>

definition sample_world :: "string option \<Rightarrow> int \<Rightarrow> world" where
  "sample_world sdk status =
     \<lparr>vulkan_sdk = sdk, files = (\<lambda>path. None), writable = (\<lambda>path. True),
      run_process = (\<lambda>history command fs. (status, fs(vulkan_tempOut \<mapsto> ''SPIRV...''))),
      commands = [], log_events = []\<rparr>"

lemma run_glslang_sample:
  "run_glslang ''void main(){}'' (sample_world sdk status) =
     (status, (sample_world sdk status)
        \<lparr>files := (\<lambda>path. None)(vulkan_tempIn \<mapsto> vulkan_text ''void main(){}'',
                                 vulkan_tempOut \<mapsto> ''SPIRV...''),
         commands := [glslang_command sdk]\<rparr>)"
  by (simp add: run_glslang_def sample_world_def ofstream_write_def std_system_def)

section \<open>The Vulkan converter and the assembler's exit status\<close>

lemma length_read_words: "length (read_words bytes) = length bytes div 4"
  by (induction bytes rule: read_words.induct) simp_all

text \<open>
  Let the run of the assembler (the input file written, then \<open>glslang.exe\<close> called)
  end with exit status \<open>status\<close> in world \<open>w2\<close>. When \<open>status\<close> is not zero,
  \<open>TranspileToVulkan\<close> returns \<open>success = true\<close> with empty output, empty binary and
  the message \<open>SPIR-V compilation failed!\<close>. When \<open>status\<close> is zero and the assembled
  file is one of whole words, it returns \<open>success = true\<close>, the source prefixed with
  \<open>#version 450 core\<close> and two line breaks as output, and a binary of a quarter as
  many words as the file has bytes.
\<close>

lemma TranspileToVulkan_failed_status:
  "run_glslang glslSource w = (status, w2) \<Longrightarrow> status \<noteq> 0 \<Longrightarrow>
     TranspileToVulkan glslSource stage w =
       (Inr \<lparr>success = True, output = [], binary = [],
             errorMessage = ''SPIR-V compilation failed!''\<rparr>, w2)"
  by (simp add: TranspileToVulkan_def)

lemma TranspileToVulkan_whole_words:
  "run_glslang glslSource w = (0, w2) \<Longrightarrow> files w2 vulkan_tempOut = Some bytes \<Longrightarrow>
   length bytes mod 4 = 0 \<Longrightarrow>
     TranspileToVulkan glslSource stage w =
       (Inr \<lparr>success = True,
             output = ''#version 450 core'' @ [newline, newline] @ glslSource,
             binary = read_words bytes,
             errorMessage = ''SPIR-V compilation success!''\<rparr>, w2) \<and>
     length (read_words bytes) = length bytes div 4"
  by (simp add: TranspileToVulkan_def vulkan_text_def length_read_words)

text \<open>
  With exit status zero the converter does not always return. When the file the
  assembler should have written cannot be opened, the vector's constructor throws;
  when the file has bytes left over after its last whole word, the read runs past the
  vector.
\<close>

lemma TranspileToVulkan_file_missing:
  "run_glslang glslSource w = (0, w2) \<Longrightarrow> files w2 vulkan_tempOut = None \<Longrightarrow>
     TranspileToVulkan glslSource stage w = (Inl (Std_exception ''bad allocation''), w2)"
  by (simp add: TranspileToVulkan_def)

lemma TranspileToVulkan_bytes_left_over:
  "run_glslang glslSource w = (0, w2) \<Longrightarrow> files w2 vulkan_tempOut = Some bytes \<Longrightarrow>
   length bytes mod 4 \<noteq> 0 \<Longrightarrow>
     TranspileToVulkan glslSource stage w = (Inl Undefined_behaviour, w2)"
  by (simp add: TranspileToVulkan_def)

text \<open>
  A world in which the assembler exits with status zero and leaves the given content
  (or no file, for \<open>None\<close>) at its output path.
\<close>

definition assembled_world :: "string option \<Rightarrow> world" where
  "assembled_world content =
     \<lparr>vulkan_sdk = None, files = (\<lambda>path. None), writable = (\<lambda>path. True),
      run_process = (\<lambda>history command fs. (0, fs(vulkan_tempOut := content))),
      commands = [], log_events = []\<rparr>"

lemma run_glslang_assembled:
  "run_glslang ''void main(){}'' (assembled_world content) =
     (0, (assembled_world content)
        \<lparr>files := (\<lambda>path. None)(vulkan_tempIn \<mapsto> vulkan_text ''void main(){}'',
                                 vulkan_tempOut := content),
         commands := [glslang_command None]\<rparr>)"
  by (simp add: run_glslang_def assembled_world_def ofstream_write_def std_system_def)

text \<open>
  Claim C1 (the code departs from it). The assembler exits with status zero and the
  assembled file has the three bytes \<open>ABC\<close>: \<open>TranspileToVulkan\<close> makes a vector of
  no word and reads three bytes into it, so that it does not return the result with
  \<open>success = true\<close> and a binary of \<open>3 div 4 = 0\<close> words, and neither does
  \<open>Transpile\<close>. With exit status zero and no file to open, the constructor of the
  vector throws, and \<open>Transpile\<close> returns \<open>success = false\<close>.
\<close>

theorem TranspileToVulkan_zero_status_no_result:
  "fst (TranspileToVulkan ''void main(){}'' Vertex (assembled_world (Some ''ABC''))) =
     Inl Undefined_behaviour \<and>
   fst (Transpile ''void main(){}'' Vulkan Vertex (assembled_world (Some ''ABC''))) =
     Inl Undefined_behaviour \<and>
   fst (TranspileToVulkan ''void main(){}'' Vertex (assembled_world None)) =
     Inl (Std_exception ''bad allocation'') \<and>
   fst (Transpile ''void main(){}'' Vulkan Vertex (assembled_world None)) =
     Inr \<lparr>success = False, output = [], binary = [],
          errorMessage = ''Transpilation exception: bad allocation''\<rparr>"
  by (simp add: Transpile_def dispatch_def TranspileToVulkan_def run_glslang_assembled
      vulkan_tempOut_def vulkan_tempIn_def)

section \<open>Input validation\<close>

lemma find_str_char: "find_str s [c] = None \<longleftrightarrow> c \<notin> set s"
  by (induction s) auto

text \<open>
  Claim C2. For every target and stage, when the source is empty, or has no \<open>{\<close>
  anywhere, or has no \<open>}\<close> anywhere, \<open>Transpile\<close> returns a result with
  \<open>success = false\<close> (and the message of the empty-source or of the brace check), and
  the world is the one it was called in: no file written, no tool run, nothing
  converted.
\<close>

theorem Transpile_input_error:
  "glslSource = [] \<or> CHR ''{'' \<notin> set glslSource \<or> CHR ''}'' \<notin> set glslSource \<Longrightarrow>
     Transpile glslSource target stage w =
       (Inr \<lparr>success = False, output = [], binary = [],
             errorMessage =
               (if glslSource = [] then ''Input shader source is empty''
                else ''ERROR: Missing curly braces in shader source. Please fix the problem.'')\<rparr>,
        w)"
  by (auto simp: Transpile_def find_str_char)

theorem Transpile_input_error_witness:
  "Transpile [] HLSL Vertex (sample_world None 0) =
     (Inr \<lparr>success = False, output = [], binary = [],
           errorMessage = ''Input shader source is empty''\<rparr>, sample_world None 0) \<and>
   Transpile ''void main() }'' Vulkan Fragment (sample_world None 0) =
     (Inr \<lparr>success = False, output = [], binary = [],
           errorMessage =
             ''ERROR: Missing curly braces in shader source. Please fix the problem.''\<rparr>,
      sample_world None 0) \<and>
   Transpile ''void main() {'' Metal Vertex (sample_world None 0) =
     (Inr \<lparr>success = False, output = [], binary = [],
           errorMessage =
             ''ERROR: Missing curly braces in shader source. Please fix the problem.''\<rparr>,
      sample_world None 0)"
  using Transpile_input_error[of "[]" HLSL Vertex "sample_world None 0"]
    Transpile_input_error[of "''void main() }''" Vulkan Fragment "sample_world None 0"]
    Transpile_input_error[of "''void main() {''" Metal Vertex "sample_world None 0"]
  by simp

text \<open>
  The check is one of presence only: a source whose braces are there but do not
  balance passes it.
\<close>

lemma Transpile_unbalanced_braces:
  "fst (Transpile ''}{'' GLSL Vertex (sample_world None 0)) =
     Inr \<lparr>success = True, output = ''}{'', binary = [], errorMessage = []\<rparr>"
  by (simp add: Transpile_def dispatch_def)

section \<open>Uniform bindings\<close>

lemma static_cast_int_small: "n < 2 ^ 31 \<Longrightarrow> static_cast_int n = int n"
proof -
  assume n: "n < 2 ^ 31"
  have "(word_of_nat n :: 32 word) = word_of_int (int n)" by simp
  then have "static_cast_int n = (int n + 2 ^ 31) mod 2 ^ 32 - 2 ^ 31"
    unfolding static_cast_int_def by (simp only: int_word_sint) simp
  also from n have "\<dots> = int n" by simp
  finally show ?thesis .
qed

definition uniform_of :: "nat \<Rightarrow> captures \<Rightarrow> UniformBinding" where
  "uniform_of i caps =
     \<lparr>u_name = sub_match caps 2, u_type = sub_match caps 1, u_binding = int i, u_set = 0\<rparr>"

lemma ExtractUniforms_loop_eq:
  "length uniforms + length (occurrences uniformRegex searchStart) \<le> 2 ^ 31 \<Longrightarrow>
     ExtractUniforms_loop searchStart uniforms =
       uniforms @ map (\<lambda>(i, caps). uniform_of i caps)
                      (enumerate (length uniforms) (occurrences uniformRegex searchStart))"
proof (induction searchStart uniforms rule: ExtractUniforms_loop.induct)
  case (1 searchStart uniforms)
  show ?case
  proof (cases "regex_search uniformRegex None searchStart")
    case None
    then show ?thesis
      by (subst ExtractUniforms_loop.simps) (simp add: occurrences_None)
  next
    case (Some x)
    obtain pre m p' suf caps where x: "x = (pre, m, p', suf, caps)"
      by (cases x) auto
    from Some x
    have rs: "regex_search uniformRegex None searchStart = Some (pre, m, p', suf, caps)"
      by simp
    note occ = occurrences_Some[OF rs min_len_uniformRegex]
    let ?u = "\<lparr>u_name = sub_match caps 2, u_type = sub_match caps 1,
               u_binding = static_cast_int (length uniforms), u_set = 0\<rparr>"
    from "1.prems" occ
    have small: "length (uniforms @ [?u]) + length (occurrences uniformRegex suf) \<le> 2 ^ 31"
      by simp
    from "1.prems" occ have "length uniforms < 2 ^ 31" by simp
    then have u: "?u = uniform_of (length uniforms) caps"
      by (simp add: uniform_of_def static_cast_int_small)
    have "ExtractUniforms_loop searchStart uniforms =
            ExtractUniforms_loop suf (uniforms @ [?u])"
      by (subst ExtractUniforms_loop.simps) (simp add: rs)
    also have "\<dots> = (uniforms @ [?u]) @ map (\<lambda>(i, caps). uniform_of i caps)
                      (enumerate (length (uniforms @ [?u])) (occurrences uniformRegex suf))"
      by (rule "1.IH"[OF rs refl refl refl refl small])
    finally show ?thesis
      unfolding u by (simp add: occ)
  qed
qed

text \<open>
  The first match of a pattern at a position, built up from the first matches of its
  parts; with it, what the pattern of \<open>ExtractUniforms\<close> matches on a declaration.
\<close>

lemma ms_lit:
  "ms (lit w) p (w @ rest) caps = [(if w = [] then p else Some (last w), rest, caps)]"
  by (induction w arbitrary: p) simp_all

lemma ms_Star_Atom_hd:
  "list_all (in_cls k) m \<Longrightarrow> (case rest of [] \<Rightarrow> True | c # cs \<Rightarrow> \<not> in_cls k c) \<Longrightarrow>
     \<exists>xs. ms (Star (Atom k)) p (m @ rest) caps =
            (if m = [] then p else Some (last m), rest, caps) # xs"
proof (induction m arbitrary: p)
  case Nil
  then show ?case by (subst ms.simps(5)) (simp split: list.splits)
next
  case (Cons a m)
  from Cons.prems have a: "in_cls k a" and m: "list_all (in_cls k) m" by simp_all
  from Cons.IH[OF m Cons.prems(2), of "Some a"] obtain xs where
    "ms (Star (Atom k)) (Some a) (m @ rest) caps =
       (if m = [] then Some a else Some (last m), rest, caps) # xs"
    by blast
  with a show ?case by (subst ms.simps(5)) simp
qed

lemma ms_Plus_Atom_hd:
  "list_all (in_cls k) m \<Longrightarrow> m \<noteq> [] \<Longrightarrow>
   (case rest of [] \<Rightarrow> True | c # cs \<Rightarrow> \<not> in_cls k c) \<Longrightarrow>
     \<exists>xs. ms (Plus (Atom k)) p (m @ rest) caps = (Some (last m), rest, caps) # xs"
proof -
  assume k: "list_all (in_cls k) m" and ne: "m \<noteq> []"
    and r: "case rest of [] \<Rightarrow> True | c # cs \<Rightarrow> \<not> in_cls k c"
  from ne obtain a m' where m: "m = a # m'" by (cases m) auto
  with k have a: "in_cls k a" and m': "list_all (in_cls k) m'" by simp_all
  from ms_Star_Atom_hd[OF m' r, of "Some a" caps] obtain xs where
    "ms (Star (Atom k)) (Some a) (m' @ rest) caps =
       (if m' = [] then Some a else Some (last m'), rest, caps) # xs"
    by blast
  with a m show ?thesis by (simp add: Plus_def)
qed

lemma ms_Cat_hd:
  "ms r1 p s caps = (p1, s1, c1) # xs \<Longrightarrow> ms r2 p1 s1 c1 = y # ys \<Longrightarrow>
     \<exists>zs. ms (Cat r1 r2) p s caps = y # zs"
  by simp

lemma ms_Group_hd:
  "ms r p s caps = (p1, s1, c1) # xs \<Longrightarrow>
     \<exists>zs. ms (Group n r) p s caps = (p1, s1, (n, take (length s - length s1) s) # c1) # zs"
  by simp

lemma word_not_space: "is_word c \<Longrightarrow> \<not> is_space c"
  by (auto simp: is_word_def is_space_def is_alpha_def is_digit_def)

lemma uniform_shape_match:
  assumes w1: "list_all is_space w1" "w1 \<noteq> []"
    and ty: "list_all is_word ty" "ty \<noteq> []"
    and w2: "list_all is_space w2" "w2 \<noteq> []"
    and nm: "list_all is_word nm" "nm \<noteq> []"
  shows "\<exists>zs. ms uniformRegex p (''uniform'' @ w1 @ ty @ w2 @ nm @ '';'' @ rest) [] =
           (Some CHR '';'', rest, [(2, nm), (1, ty)]) # zs"
proof -
  let ?s5 = "'';'' @ rest"
  let ?s4 = "nm @ ?s5"
  let ?s3 = "w2 @ ?s4"
  let ?s2 = "ty @ ?s3"
  let ?s1 = "w1 @ ?s2"
  have cls: "list_all (in_cls Space) w1" "list_all (in_cls Word) ty"
    "list_all (in_cls Space) w2" "list_all (in_cls Word) nm"
    using w1 ty w2 nm by (simp_all add: list_all_iff)
  from ty have h2: "case ?s2 of [] \<Rightarrow> True | c # cs \<Rightarrow> \<not> in_cls Space c"
    by (cases ty) (auto simp: word_not_space)
  from w2 have h3: "case ?s3 of [] \<Rightarrow> True | c # cs \<Rightarrow> \<not> in_cls Word c"
    by (cases w2) (auto dest: word_not_space)
  from nm have h4: "case ?s4 of [] \<Rightarrow> True | c # cs \<Rightarrow> \<not> in_cls Space c"
    by (cases nm) (auto simp: word_not_space)
  have h5: "case ?s5 of [] \<Rightarrow> True | c # cs \<Rightarrow> \<not> in_cls Word c"
    by (simp add: is_word_def is_alpha_def is_digit_def)
  have l0: "ms (lit ''uniform'') p (''uniform'' @ ?s1) [] = [(Some CHR ''m'', ?s1, [])]"
    by (simp only: ms_lit) simp
  from ms_Plus_Atom_hd[OF cls(1) w1(2) h2] obtain x1 where
    l1: "ms (Plus (Atom Space)) (Some CHR ''m'') ?s1 [] = (Some (last w1), ?s2, []) # x1"
    by blast
  from ms_Plus_Atom_hd[OF cls(2) ty(2) h3] obtain x2 where
    "ms (Plus (Atom Word)) (Some (last w1)) ?s2 [] = (Some (last ty), ?s3, []) # x2"
    by blast
  from ms_Group_hd[OF this, of 1] obtain x2' where
    l2: "ms (Group 1 (Plus (Atom Word))) (Some (last w1)) ?s2 [] =
           (Some (last ty), ?s3, [(1, ty)]) # x2'"
    by auto
  from ms_Plus_Atom_hd[OF cls(3) w2(2) h4] obtain x3 where
    l3: "ms (Plus (Atom Space)) (Some (last ty)) ?s3 [(1, ty)] =
           (Some (last w2), ?s4, [(1, ty)]) # x3"
    by blast
  from ms_Plus_Atom_hd[OF cls(4) nm(2) h5] obtain x4 where
    "ms (Plus (Atom Word)) (Some (last w2)) ?s4 [(1, ty)] =
       (Some (last nm), ?s5, [(1, ty)]) # x4"
    by blast
  from ms_Group_hd[OF this, of 2] obtain x4' where
    l4: "ms (Group 2 (Plus (Atom Word))) (Some (last w2)) ?s4 [(1, ty)] =
           (Some (last nm), ?s5, [(2, nm), (1, ty)]) # x4'"
    by auto
  have l5: "ms (lit '';'') (Some (last nm)) ?s5 [(2, nm), (1, ty)] =
              [(Some CHR '';'', rest, [(2, nm), (1, ty)])]"
    by (simp only: ms_lit) simp
  have e: "ms Eps (Some CHR '';'') rest [(2, nm), (1, ty)] =
             [(Some CHR '';'', rest, [(2, nm), (1, ty)])]"
    by simp
  from ms_Cat_hd[OF l5 e] obtain z5 where
    "ms (seq [lit '';'']) (Some (last nm)) ?s5 [(2, nm), (1, ty)] =
       (Some CHR '';'', rest, [(2, nm), (1, ty)]) # z5"
    by auto
  from ms_Cat_hd[OF l4 this] obtain z4 where
    "ms (seq [Group 2 (Plus (Atom Word)), lit '';'']) (Some (last w2)) ?s4 [(1, ty)] =
       (Some CHR '';'', rest, [(2, nm), (1, ty)]) # z4"
    by auto
  from ms_Cat_hd[OF l3 this] obtain z3 where
    "ms (seq [Plus (Atom Space), Group 2 (Plus (Atom Word)), lit '';''])
        (Some (last ty)) ?s3 [(1, ty)] =
       (Some CHR '';'', rest, [(2, nm), (1, ty)]) # z3"
    by auto
  from ms_Cat_hd[OF l2 this] obtain z2 where
    "ms (seq [Group 1 (Plus (Atom Word)), Plus (Atom Space), Group 2 (Plus (Atom Word)),
              lit '';'']) (Some (last w1)) ?s2 [] =
       (Some CHR '';'', rest, [(2, nm), (1, ty)]) # z2"
    by auto
  from ms_Cat_hd[OF l1 this] obtain z1 where
    "ms (seq [Plus (Atom Space), Group 1 (Plus (Atom Word)), Plus (Atom Space),
              Group 2 (Plus (Atom Word)), lit '';'']) (Some CHR ''m'') ?s1 [] =
       (Some CHR '';'', rest, [(2, nm), (1, ty)]) # z1"
    by auto
  from ms_Cat_hd[OF l0 this] show ?thesis
    unfolding uniformRegex_def by auto
qed

lemma take_matched: "take (length (m @ rest) - length rest) (m @ rest) = m"
  by simp

lemma regex_search_uniform_shape:
  assumes "list_all is_space w1" "w1 \<noteq> []" "list_all is_word ty" "ty \<noteq> []"
    "list_all is_space w2" "w2 \<noteq> []" "list_all is_word nm" "nm \<noteq> []"
  shows "regex_search uniformRegex p (''uniform'' @ w1 @ ty @ w2 @ nm @ '';'' @ rest) =
           Some ([], ''uniform'' @ w1 @ ty @ w2 @ nm @ '';'', Some CHR '';'', rest,
                 [(2, nm), (1, ty)])"
proof -
  let ?m = "''uniform'' @ w1 @ ty @ w2 @ nm @ '';''"
  have eq: "''uniform'' @ w1 @ ty @ w2 @ nm @ '';'' @ rest = ?m @ rest" by simp
  from uniform_shape_match[OF assms, of p rest] obtain zs where
    "ms uniformRegex p (?m @ rest) [] = (Some CHR '';'', rest, [(2, nm), (1, ty)]) # zs"
    unfolding eq by blast
  then have "regex_search uniformRegex p (?m @ rest) =
      Some ([], take (length (?m @ rest) - length rest) (?m @ rest), Some CHR '';'', rest,
            [(2, nm), (1, ty)])"
    by (subst regex_search.simps) (simp only: list.case prod.case)
  then show ?thesis unfolding take_matched eq .
qed

text \<open>
  A declaration \<^verbatim>\<open>uniform <type> <name>;\<close> at the front of a text (the type and the
  name words, white space between them) is the first occurrence of the pattern there,
  with the type and the name as its groups; the other occurrences are those of the
  text after it.
\<close>

lemma occurrences_uniform_declaration:
  assumes "list_all is_space w1" "w1 \<noteq> []" "list_all is_word ty" "ty \<noteq> []"
    "list_all is_space w2" "w2 \<noteq> []" "list_all is_word nm" "nm \<noteq> []"
  shows "occurrences uniformRegex (''uniform'' @ w1 @ ty @ w2 @ nm @ '';'' @ rest) =
           [(2, nm), (1, ty)] # occurrences uniformRegex rest"
  by (rule occurrences_Some[OF regex_search_uniform_shape[OF assms] min_len_uniformRegex])


lemma uniform_occurrences_example:
  "occurrences uniformRegex ''uniform mat4 model; uniform vec3 color;'' =
     [[(2, ''model''), (1, ''mat4'')], [(2, ''color''), (1, ''vec3'')]]"
  by code_simp

text \<open>
  Claim C7. \<open>ExtractUniforms\<close> returns one binding per occurrence of
  \<^verbatim>\<open>uniform <type> <name>;\<close> in the source, in the order of the occurrences, with
  the type and the name captured, the binding slot equal to the zero-based index of
  the occurrence and the set 0. (The count of bindings is cast to \<open>int\<close>: the
  statement is for sources with at most \<open>2^31\<close> occurrences, whose indices all fit.)
  The function is a function of the source alone: it changes nothing, and equal
  sources give equal lists. That a declaration of this shape is an occurrence, with
  its type and name, is \<open>occurrences_uniform_declaration\<close>.
\<close>

theorem ExtractUniforms_bindings:
  "length (occurrences uniformRegex glslSource) \<le> 2 ^ 31 \<Longrightarrow>
     ExtractUniforms glslSource =
       map (\<lambda>(i, caps). \<lparr>u_name = sub_match caps 2, u_type = sub_match caps 1,
                           u_binding = int i, u_set = 0\<rparr>)
           (enumerate 0 (occurrences uniformRegex glslSource))"
  using ExtractUniforms_loop_eq[of "[]" glslSource]
  by (simp add: ExtractUniforms_def uniform_of_def)

theorem ExtractUniforms_bindings_witness:
  "ExtractUniforms ''uniform mat4 model; uniform vec3 color;'' =
     [\<lparr>u_name = ''model'', u_type = ''mat4'', u_binding = 0, u_set = 0\<rparr>,
      \<lparr>u_name = ''color'', u_type = ''vec3'', u_binding = 1, u_set = 0\<rparr>]"
  using ExtractUniforms_bindings[of "''uniform mat4 model; uniform vec3 color;''"]
  by (simp add: uniform_occurrences_example sub_match_def)

section \<open>Vertex and fragment stages together\<close>

text \<open>
  Claim C3. \<open>TranspileProgram\<close> runs \<open>Transpile\<close> on the vertex source first, in the
  world it was called in. When that result is a failure, it is returned as it is and
  the fragment source is not looked at. Otherwise \<open>Transpile\<close> runs on the fragment
  source, in the world the vertex stage left; a failure of it is returned as it is
  (nothing of the vertex result is in it), and when both succeed the result is
  \<open>success = true\<close>, the two outputs under their banners, and an empty binary.
\<close>

theorem TranspileProgram_stages:
  "Transpile vertexSource target Vertex w = (Inr vertResult, w1) \<Longrightarrow>
     (\<not> success vertResult \<longrightarrow>
        TranspileProgram vertexSource fragmentSource target w = (Inr vertResult, w1)) \<and>
     (success vertResult \<longrightarrow>
        (\<forall>fragResult w2.
           Transpile fragmentSource target Fragment w1 = (Inr fragResult, w2) \<longrightarrow>
             TranspileProgram vertexSource fragmentSource target w =
               (if \<not> success fragResult then (Inr fragResult, w2)
                else (Inr \<lparr>success = True,
                           output = ''// === VERTEX SHADER ==='' @ [newline] @
                                    output vertResult @ [newline, newline] @
                                    ''// === FRAGMENT SHADER ==='' @ [newline] @
                                    output fragResult,
                           binary = [], errorMessage = []\<rparr>, w2))))"
  by (simp add: TranspileProgram_def)

lemma Transpile_GLSL:
  "glslSource \<noteq> [] \<Longrightarrow> CHR ''{'' \<in> set glslSource \<Longrightarrow> CHR ''}'' \<in> set glslSource \<Longrightarrow>
     Transpile glslSource GLSL stage w =
       (Inr \<lparr>success = True, output = glslSource, binary = [], errorMessage = []\<rparr>,
        Logger_Log Info ''Shader transpilation successful'' w)"
  by (simp add: Transpile_def dispatch_def find_str_char)

theorem TranspileProgram_stages_witness:
  "fst (TranspileProgram [] ''void main(){}'' GLSL (sample_world None 0)) =
     Inr \<lparr>success = False, output = [], binary = [],
          errorMessage = ''Input shader source is empty''\<rparr> \<and>
   fst (TranspileProgram ''void main(){}'' ''void main()'' GLSL (sample_world None 0)) =
     Inr \<lparr>success = False, output = [], binary = [],
          errorMessage =
            ''ERROR: Missing curly braces in shader source. Please fix the problem.''\<rparr> \<and>
   fst (TranspileProgram ''void main(){}'' ''void main(){ }'' GLSL (sample_world None 0)) =
     Inr \<lparr>success = True,
          output = ''// === VERTEX SHADER ==='' @ [newline] @ ''void main(){}'' @
                   [newline, newline] @ ''// === FRAGMENT SHADER ==='' @ [newline] @
                   ''void main(){ }'',
          binary = [], errorMessage = []\<rparr>"
proof -
  let ?w = "sample_world None 0"
  let ?w1 = "Logger_Log Info ''Shader transpilation successful'' ?w"
  have v0: "Transpile [] GLSL Vertex ?w =
      (Inr \<lparr>success = False, output = [], binary = [],
           errorMessage = ''Input shader source is empty''\<rparr>, ?w)"
    by (simp add: Transpile_def)
  have v1: "Transpile ''void main(){}'' GLSL Vertex ?w =
      (Inr \<lparr>success = True, output = ''void main(){}'', binary = [],
            errorMessage = []\<rparr>, ?w1)"
    by (rule Transpile_GLSL) simp_all
  have f1: "Transpile ''void main()'' GLSL Fragment ?w1 =
      (Inr \<lparr>success = False, output = [], binary = [],
           errorMessage =
            ''ERROR: Missing curly braces in shader source. Please fix the problem.''\<rparr>,
       ?w1)"
    by (simp add: Transpile_def)
  have f2: "Transpile ''void main(){ }'' GLSL Fragment ?w1 =
      (Inr \<lparr>success = True, output = ''void main(){ }'', binary = [],
            errorMessage = []\<rparr>,
       Logger_Log Info ''Shader transpilation successful'' ?w1)"
    by (rule Transpile_GLSL) simp_all
  from TranspileProgram_stages[OF v0, of "''void main(){}''"]
    TranspileProgram_stages[OF v1, of "''void main()''"]
    TranspileProgram_stages[OF v1, of "''void main(){ }''"]
    f1 f2
  show ?thesis by simp
qed

section \<open>The binary payload\<close>

lemma TranspileToHLSL_binary:
  "TranspileToHLSL glslSource stage w = (Inr result, w') \<Longrightarrow> binary result = []"
  by (auto simp: TranspileToHLSL_def Let_def split: prod.splits if_splits)

lemma TranspileToVulkan_success:
  "TranspileToVulkan glslSource stage w = (Inr result, w') \<Longrightarrow> success result"
  by (auto simp: TranspileToVulkan_def Let_def split: prod.splits if_splits option.splits)

lemma Metal_from_Vulkan_binary:
  "Metal_from_Vulkan vResult w = (Inr result, w') \<Longrightarrow> success vResult \<Longrightarrow>
     binary result = []"
  by (auto simp: Metal_from_Vulkan_def Let_def split: prod.splits if_splits option.splits)

lemma TranspileToMetal_binary:
  "TranspileToMetal glslSource stage w = (Inr result, w') \<Longrightarrow> binary result = []"
  by (auto simp: TranspileToMetal_def split: prod.splits sum.splits
      dest: TranspileToVulkan_success Metal_from_Vulkan_binary)

lemma dispatch_binary:
  "dispatch glslSource target stage w = (Inr result, w') \<Longrightarrow>
     (binary result \<noteq> [] \<longrightarrow> target = Vulkan) \<and> (target = Vulkan \<longrightarrow> success result)"
  by (cases target)
    (auto simp: dispatch_def dest: TranspileToHLSL_binary TranspileToMetal_binary
      TranspileToVulkan_success)

text \<open>
  Claim C9. Whatever \<open>Transpile\<close> returns, for any source, target and stage: a
  non-empty binary comes only with the Vulkan target and \<open>success = true\<close>; a failure
  result has an empty binary; and so has every result for the GLSL (source format),
  HLSL and Metal targets.
\<close>

theorem Transpile_binary_payload:
  "Transpile glslSource target stage w = (Inr result, w') \<Longrightarrow>
     (binary result \<noteq> [] \<longrightarrow> target = Vulkan \<and> success result) \<and>
     (\<not> success result \<longrightarrow> binary result = []) \<and>
     (target = GLSL \<or> target = HLSL \<or> target = Metal \<longrightarrow> binary result = [])"
proof -
  assume t: "Transpile glslSource target stage w = (Inr result, w')"
  have "binary result \<noteq> [] \<longrightarrow> target = Vulkan \<and> success result"
  proof (cases "glslSource = [] \<or> find_str glslSource ''{'' = None \<or>
                  find_str glslSource ''}'' = None")
    case True
    with t show ?thesis by (auto simp: Transpile_def split: if_splits)
  next
    case False
    obtain d w1 where d: "dispatch glslSource target stage w = (d, w1)"
      by (cases "dispatch glslSource target stage w") auto
    show ?thesis
    proof (cases d)
      case (Inl e)
      with t d False show ?thesis by (cases e) (auto simp: Transpile_def)
    next
      case (Inr r)
      with t d False have "r = result" by (auto simp: Transpile_def)
      with d Inr dispatch_binary[of glslSource target stage w result w1]
      show ?thesis by auto
    qed
  qed
  then show ?thesis by auto
qed

theorem Transpile_binary_payload_witness:
  "(\<exists>result w'.
      Transpile ''void main(){}'' Vulkan Vertex (sample_world None 0) = (Inr result, w') \<and>
      binary result \<noteq> [] \<and> success result) \<and>
   (\<exists>result w'.
      Transpile ''void main(){}'' HLSL Vertex (sample_world None 1) = (Inr result, w') \<and>
      \<not> success result \<and> binary result = [])"
proof -
  let ?v = "Transpile ''void main(){}'' Vulkan Vertex (sample_world None 0)"
  let ?h = "Transpile ''void main(){}'' HLSL Vertex (sample_world None 1)"
  have v: "?v = (Inr \<lparr>success = True, output = vulkan_text ''void main(){}'',
                       binary = read_words ''SPIRV...'',
                       errorMessage = ''SPIR-V compilation success!''\<rparr>, snd ?v)"
    by (simp add: Transpile_def dispatch_def TranspileToVulkan_def run_glslang_sample
        vulkan_tempOut_def vulkan_tempIn_def)
  have b: "read_words ''SPIRV...'' \<noteq> []" by simp
  obtain hlsl where h: "?h = (Inr \<lparr>success = False, output = hlsl, binary = [],
      errorMessage = ''DXC Validation Failed! Check shader syntax.''\<rparr>, snd ?h)"
    by (simp add: Transpile_def dispatch_def TranspileToHLSL_def Let_def std_system_def
        sample_world_def ofstream_write_def)
  from Transpile_binary_payload[OF v] b Transpile_binary_payload[OF h] v h
  show ?thesis by auto
qed

section \<open>Vertex attributes and \<open>std::stoi\<close>\<close>

text \<open>
  What a repetition of a character class matches, and what the capture groups of a
  match hold: used to show that the location group of \<open>attrRegex\<close> always holds
  digits, at least one.
\<close>

lemma ms_Star_Atom:
  "(p', s', caps') \<in> set (ms (Star (Atom k)) p s caps) \<Longrightarrow>
     caps' = caps \<and> (\<exists>m. s = m @ s' \<and> list_all (in_cls k) m)"
proof (induction s arbitrary: p)
  case Nil
  then show ?case by (subst (asm) ms.simps(5)) simp
next
  case (Cons c cs)
  show ?case
  proof (cases "(p', s', caps') = (p, c # cs, caps)")
    case True
    then show ?thesis by simp
  next
    case False
    with Cons.prems have k: "in_cls k c" and
      rec: "(p', s', caps') \<in> set (ms (Star (Atom k)) (Some c) cs caps)"
      by (subst (asm) ms.simps(5), auto split: if_splits)+
    from Cons.IH[OF rec] obtain m where "caps' = caps" "cs = m @ s'" "list_all (in_cls k) m"
      by blast
    with k have "c # cs = (c # m) @ s' \<and> list_all (in_cls k) (c # m)" by simp
    with \<open>caps' = caps\<close> show ?thesis by blast
  qed
qed

lemma ms_Plus_Atom:
  "(p', s', caps') \<in> set (ms (Plus (Atom k)) p s caps) \<Longrightarrow>
     caps' = caps \<and> (\<exists>m. m \<noteq> [] \<and> s = m @ s' \<and> list_all (in_cls k) m)"
proof -
  assume a: "(p', s', caps') \<in> set (ms (Plus (Atom k)) p s caps)"
  then obtain c cs where s: "s = c # cs" and k: "in_cls k c" and
    rec: "(p', s', caps') \<in> set (ms (Star (Atom k)) (Some c) cs caps)"
    by (auto simp: Plus_def split: list.splits if_splits)
  from ms_Star_Atom[OF rec] obtain m where "caps' = caps" "cs = m @ s'" "list_all (in_cls k) m"
    by blast
  with k s have "c # m \<noteq> [] \<and> s = (c # m) @ s' \<and> list_all (in_cls k) (c # m)" by simp
  with \<open>caps' = caps\<close> show ?thesis by blast
qed

fun digit_group :: "regex \<Rightarrow> bool" where
  "digit_group (Cat r1 r2) = (digit_group r1 \<and> digit_group r2)"
| "digit_group (Star r) = digit_group r"
| "digit_group (LazyStar r) = digit_group r"
| "digit_group (Group n r) = (if n = 1 then r = Plus (Atom Digit) else digit_group r)"
| "digit_group r = True"

definition digit_caps :: "captures \<Rightarrow> bool" where
  "digit_caps caps = list_all (\<lambda>(n, g). n \<noteq> 1 \<or> (g \<noteq> [] \<and> list_all is_digit g)) caps"

lemma ms_digit_caps:
  "(p', s', caps') \<in> set (ms r p s caps) \<Longrightarrow> digit_group r \<Longrightarrow> digit_caps caps \<Longrightarrow>
     digit_caps caps'"
proof (induction r p s caps arbitrary: p' s' caps' rule: ms.induct)
  case (1 p s caps)
  then show ?case by simp
next
  case (2 k p s caps)
  then show ?case by (auto split: list.splits if_splits)
next
  case (3 p s caps)
  then show ?case by (auto split: if_splits)
next
  case (4 r1 r2 p s caps)
  from "4.prems"(1) obtain p1 s1 c1 where
    a: "(p1, s1, c1) \<in> set (ms r1 p s caps)" and
    b: "(p', s', caps') \<in> set (ms r2 p1 s1 c1)"
    by auto
  from "4.prems" have g: "digit_group r1" "digit_group r2" by simp_all
  from "4.IH"(1)[OF a g(1) "4.prems"(3)] have "digit_caps c1" .
  from "4.IH"(2)[OF a refl refl b g(2) this] show ?case .
next
  case (5 r p s caps)
  show ?case
  proof (cases "(p', s', caps') = (p, s, caps)")
    case True
    with "5.prems" show ?thesis by simp
  next
    case False
    with "5.prems"(1) obtain p1 s1 c1 where
      a: "(p1, s1, c1) \<in> set (ms r p s caps)" and l: "length s1 < length s" and
      b: "(p', s', caps') \<in> set (ms (Star r) p1 s1 c1)"
      by (subst (asm) ms.simps(5)) (auto split: if_splits)
    from "5.prems" have g: "digit_group r" by simp
    from "5.IH"(1)[OF a g "5.prems"(3)] have "digit_caps c1" .
    from "5.IH"(2)[OF a refl refl l b "5.prems"(2) this] show ?thesis .
  qed
next
  case (6 r p s caps)
  show ?case
  proof (cases "(p', s', caps') = (p, s, caps)")
    case True
    with "6.prems" show ?thesis by simp
  next
    case False
    with "6.prems"(1) obtain p1 s1 c1 where
      a: "(p1, s1, c1) \<in> set (ms r p s caps)" and l: "length s1 < length s" and
      b: "(p', s', caps') \<in> set (ms (LazyStar r) p1 s1 c1)"
      by (subst (asm) ms.simps(6)) (auto split: if_splits)
    from "6.prems" have g: "digit_group r" by simp
    from "6.IH"(1)[OF a g "6.prems"(3)] have "digit_caps c1" .
    from "6.IH"(2)[OF a refl refl l b "6.prems"(2) this] show ?thesis .
  qed
next
  case (7 n r p s caps)
  from "7.prems"(1) obtain c1 where
    a: "(p', s', c1) \<in> set (ms r p s caps)" and
    c: "caps' = (n, take (length s - length s') s) # c1"
    by auto
  show ?case
  proof (cases "n = 1")
    case True
    with "7.prems"(2) have r: "r = Plus (Atom Digit)" by simp
    from ms_Plus_Atom[OF a[unfolded r]] obtain m where
      m: "c1 = caps" "m \<noteq> []" "s = m @ s'" "list_all (in_cls Digit) m"
      by blast
    then have "take (length s - length s') s = m" by simp
    moreover from m(4) have "list_all is_digit m" by (simp add: list_all_iff)
    ultimately show ?thesis
      using c m(1,2) "7.prems"(3) by (simp add: digit_caps_def)
  next
    case False
    with "7.prems"(2) have "digit_group r" by simp
    from "7.IH"[OF a this "7.prems"(3)] c False show ?thesis
      by (simp add: digit_caps_def)
  qed
qed

lemma ms_keeps_groups:
  "(p', s', caps') \<in> set (ms r p s caps) \<Longrightarrow> fst ` set caps \<subseteq> fst ` set caps'"
proof (induction r p s caps arbitrary: p' s' caps' rule: ms.induct)
  case (1 p s caps)
  then show ?case by simp
next
  case (2 k p s caps)
  then show ?case by (auto split: list.splits if_splits)
next
  case (3 p s caps)
  then show ?case by (auto split: if_splits)
next
  case (4 r1 r2 p s caps)
  from "4.prems" obtain p1 s1 c1 where
    a: "(p1, s1, c1) \<in> set (ms r1 p s caps)" and
    b: "(p', s', caps') \<in> set (ms r2 p1 s1 c1)"
    by auto
  from "4.IH"(1)[OF a] "4.IH"(2)[OF a refl refl b] show ?case by blast
next
  case (5 r p s caps)
  show ?case
  proof (cases "(p', s', caps') = (p, s, caps)")
    case True
    then show ?thesis by simp
  next
    case False
    with "5.prems" obtain p1 s1 c1 where
      a: "(p1, s1, c1) \<in> set (ms r p s caps)" and l: "length s1 < length s" and
      b: "(p', s', caps') \<in> set (ms (Star r) p1 s1 c1)"
      by (subst (asm) ms.simps(5)) (auto split: if_splits)
    from "5.IH"(1)[OF a] "5.IH"(2)[OF a refl refl l b] show ?thesis by blast
  qed
next
  case (6 r p s caps)
  show ?case
  proof (cases "(p', s', caps') = (p, s, caps)")
    case True
    then show ?thesis by simp
  next
    case False
    with "6.prems" obtain p1 s1 c1 where
      a: "(p1, s1, c1) \<in> set (ms r p s caps)" and l: "length s1 < length s" and
      b: "(p', s', caps') \<in> set (ms (LazyStar r) p1 s1 c1)"
      by (subst (asm) ms.simps(6)) (auto split: if_splits)
    from "6.IH"(1)[OF a] "6.IH"(2)[OF a refl refl l b] show ?thesis by blast
  qed
next
  case (7 n r p s caps)
  from "7.prems" obtain c1 where
    a: "(p', s', c1) \<in> set (ms r p s caps)" and
    c: "caps' = (n, take (length s - length s') s) # c1"
    by auto
  from "7.IH"[OF a] c show ?case by auto
qed

fun sets_group :: "nat \<Rightarrow> regex \<Rightarrow> bool" where
  "sets_group g (Cat r1 r2) = (sets_group g r1 \<or> sets_group g r2)"
| "sets_group g (Group n r) = (n = g \<or> sets_group g r)"
| "sets_group g r = False"

lemma ms_sets_group:
  "(p', s', caps') \<in> set (ms r p s caps) \<Longrightarrow> sets_group g r \<Longrightarrow> g \<in> fst ` set caps'"
proof (induction r arbitrary: p s caps p' s' caps')
  case (Cat r1 r2)
  from Cat.prems(1) obtain p1 s1 c1 where
    a: "(p1, s1, c1) \<in> set (ms r1 p s caps)" and
    b: "(p', s', caps') \<in> set (ms r2 p1 s1 c1)"
    by auto
  show ?case
  proof (cases "sets_group g r2")
    case True
    from Cat.IH(2)[OF b True] show ?thesis .
  next
    case False
    with Cat.prems(2) have "sets_group g r1" by simp
    from Cat.IH(1)[OF a this] ms_keeps_groups[OF b] show ?thesis by blast
  qed
next
  case (Group n r)
  from Group.prems(1) obtain c1 where
    a: "(p', s', c1) \<in> set (ms r p s caps)" and
    c: "caps' = (n, take (length s - length s') s) # c1"
    by auto
  show ?case
  proof (cases "n = g")
    case True
    with c show ?thesis by simp
  next
    case False
    with Group.prems(2) have "sets_group g r" by simp
    from Group.IH[OF a this] c show ?thesis by simp
  qed
qed simp_all

lemma regex_search_caps:
  "regex_search r p s = Some (pre, m, p', suf, caps) \<Longrightarrow>
     \<exists>p0 s0. (p', suf, caps) \<in> set (ms r p0 s0 [])"
proof (induction s arbitrary: p pre)
  case Nil
  show ?case
  proof (cases "ms r p [] []")
    case Nil
    with Nil.prems show ?thesis by (subst (asm) regex_search.simps) simp
  next
    case (Cons x xs)
    with Nil.prems have "x = (p', suf, caps)"
      by (subst (asm) regex_search.simps) (auto split: prod.splits)
    with Cons have "(p', suf, caps) \<in> set (ms r p [] [])" by simp
    then show ?thesis by blast
  qed
next
  case (Cons c cs)
  show ?case
  proof (cases "ms r p (c # cs) []")
    case Nil
    with Cons.prems obtain pre' where
      "regex_search r (Some c) cs = Some (pre', m, p', suf, caps)"
      by (subst (asm) regex_search.simps) (auto split: option.splits)
    from Cons.IH[OF this] show ?thesis .
  next
    case (Cons x xs)
    with Cons.prems have "x = (p', suf, caps)"
      by (subst (asm) regex_search.simps) (auto split: prod.splits)
    with Cons have "(p', suf, caps) \<in> set (ms r p (c # cs) [])" by simp
    then show ?thesis by blast
  qed
qed

lemma attr_location_digits:
  assumes "regex_search attrRegex None s = Some (pre, m, p', suf, caps)"
  shows "sub_match caps 1 \<noteq> [] \<and> list_all is_digit (sub_match caps 1)"
proof -
  from regex_search_caps[OF assms] obtain p0 s0 where
    mem: "(p', suf, caps) \<in> set (ms attrRegex p0 s0 [])" by blast
  have "digit_group attrRegex" by (simp add: attrRegex_def Plus_def)
  from ms_digit_caps[OF mem this] have dc: "digit_caps caps" by (simp add: digit_caps_def)
  have "sets_group 1 attrRegex" by (simp add: attrRegex_def Plus_def)
  from ms_sets_group[OF mem this] have "1 \<in> fst ` set caps" .
  then obtain g where g: "map_of caps 1 = Some g"
    by (metis domD dom_map_of_conv_image_fst)
  from map_of_SomeD[OF g] dc have "g \<noteq> [] \<and> list_all is_digit g"
    by (auto simp: digit_caps_def list_all_iff)
  with g show ?thesis by (simp add: sub_match_def)
qed

lemma stoi_digits:
  "ds \<noteq> [] \<Longrightarrow> list_all is_digit ds \<Longrightarrow>
     stoi ds = (if INT_MAX < dec_value ds then Inl (Std_exception ''stoi argument out of range'')
                else Inr (dec_value ds))"
  by (simp add: stoi_def list_all_iff takeWhile_eq_all_conv[THEN iffD2])

definition attribute_of :: "captures \<Rightarrow> VertexAttribute" where
  "attribute_of caps =
     \<lparr>a_name = sub_match caps 3, a_type = sub_match caps 2,
      a_location = dec_value (sub_match caps 1)\<rparr>"

definition fits_int :: "captures \<Rightarrow> bool" where
  "fits_int caps = (dec_value (sub_match caps 1) \<le> INT_MAX)"

lemma ExtractAttributes_loop_eq:
  "ExtractAttributes_loop searchStart attributes =
     (if list_all fits_int (occurrences attrRegex searchStart)
      then Inr (attributes @ map attribute_of (occurrences attrRegex searchStart))
      else Inl (Std_exception ''stoi argument out of range''))"
proof (induction searchStart attributes rule: ExtractAttributes_loop.induct)
  case (1 searchStart attributes)
  show ?case
  proof (cases "regex_search attrRegex None searchStart")
    case None
    then show ?thesis
      by (subst ExtractAttributes_loop.simps) (simp add: occurrences_None)
  next
    case (Some x)
    obtain pre m p' suf caps where x: "x = (pre, m, p', suf, caps)"
      by (cases x) auto
    from Some x
    have rs: "regex_search attrRegex None searchStart = Some (pre, m, p', suf, caps)"
      by simp
    note occ = occurrences_Some[OF rs min_len_attrRegex]
    from attr_location_digits[OF rs]
    have st: "stoi (sub_match caps 1) =
        (if INT_MAX < dec_value (sub_match caps 1)
         then Inl (Std_exception ''stoi argument out of range'')
         else Inr (dec_value (sub_match caps 1)))"
      by (simp add: stoi_digits)
    show ?thesis
    proof (cases "INT_MAX < dec_value (sub_match caps 1)")
      case True
      with st rs occ show ?thesis
        by (subst ExtractAttributes_loop.simps) (simp add: fits_int_def)
    next
      case False
      with st have st': "stoi (sub_match caps 1) = Inr (dec_value (sub_match caps 1))"
        by simp
      have "ExtractAttributes_loop searchStart attributes =
              ExtractAttributes_loop suf (attributes @ [attribute_of caps])"
        using rs st' by (subst ExtractAttributes_loop.simps) (simp add: attribute_of_def)
      also note "1.IH"[OF rs refl refl refl refl st', folded attribute_of_def]
      finally show ?thesis using False by (simp add: occ fits_int_def)
    qed
  qed
qed

lemma attr_overflow_example:
  "occurrences attrRegex ''layout(location = 2147483648) in vec3 p;'' =
     [[(3, ''p''), (2, ''vec3''), (1, ''2147483648'')]]"
  by code_simp

lemma dec_value_example: "dec_value ''2147483648'' = 2147483648"
  by (simp add: dec_value_def digit_val_def)

text \<open>
  Claim C10. \<open>ExtractAttributes\<close> does not return a list for every well-formed
  declaration: on \<^verbatim>\<open>layout(location = 2147483648) in vec3 p;\<close>, whose location is
  above \<open>INT_MAX\<close>, \<open>std::stoi\<close> throws. For every source, when the location
  literals of all occurrences of the declaration are at most \<open>INT_MAX\<close>, it returns
  one record per occurrence, in order, with the location equal to the value of the
  literal; otherwise the exception leaves it.
\<close>

theorem ExtractAttributes_stoi:
  "ExtractAttributes ''layout(location = 2147483648) in vec3 p;'' =
     Inl (Std_exception ''stoi argument out of range'') \<and>
   (\<forall>glslSource.
      ExtractAttributes glslSource =
        (if list_all (\<lambda>caps. dec_value (sub_match caps 1) \<le> INT_MAX)
              (occurrences attrRegex glslSource)
         then Inr (map (\<lambda>caps. \<lparr>a_name = sub_match caps 3, a_type = sub_match caps 2,
                                 a_location = dec_value (sub_match caps 1)\<rparr>)
                       (occurrences attrRegex glslSource))
         else Inl (Std_exception ''stoi argument out of range'')))"
proof -
  have gen: "ExtractAttributes glslSource =
        (if list_all (\<lambda>caps. dec_value (sub_match caps 1) \<le> INT_MAX)
              (occurrences attrRegex glslSource)
         then Inr (map (\<lambda>caps. \<lparr>a_name = sub_match caps 3, a_type = sub_match caps 2,
                                 a_location = dec_value (sub_match caps 1)\<rparr>)
                       (occurrences attrRegex glslSource))
         else Inl (Std_exception ''stoi argument out of range''))" for glslSource
    using ExtractAttributes_loop_eq[of glslSource "[]"]
    by (simp add: ExtractAttributes_def fits_int_def[abs_def] attribute_of_def[abs_def])
  have "ExtractAttributes ''layout(location = 2147483648) in vec3 p;'' =
          Inl (Std_exception ''stoi argument out of range'')"
    by (simp add: gen attr_overflow_example sub_match_def dec_value_example INT_MAX_def)
  with gen show ?thesis by blast
qed

lemma attr_example:
  "occurrences attrRegex ''layout(location = 2) in vec3 normal;'' =
     [[(3, ''normal''), (2, ''vec3''), (1, ''2'')]]"
  by code_simp

theorem ExtractAttributes_stoi_witness:
  "ExtractAttributes ''layout(location = 2) in vec3 normal;'' =
     Inr [\<lparr>a_name = ''normal'', a_type = ''vec3'', a_location = 2\<rparr>]"
  using ExtractAttributes_stoi
  by (simp add: attr_example sub_match_def dec_value_def digit_val_def INT_MAX_def)

section \<open>The Metal converter\<close>

text \<open>
  Where \<open>VULKAN_SDK\<close> is set, the converter does after the Vulkan step what its code
  reads: a Vulkan result with \<open>success = false\<close> is returned as it is; otherwise the
  cross-compiler is run on \<open>temp_vulkan.spv\<close>, which is not the file the Vulkan step
  wrote, and its exit status decides between the generated text and a failure with
  empty output.
\<close>

lemma sample_world_fields:
  "vulkan_sdk (sample_world sdk status) = sdk"
  "commands (sample_world sdk status) = []"
  by (simp_all add: sample_world_def)

lemma metal_reads_another_file: "metal_tempSpv \<noteq> vulkan_tempOut"
  by (simp add: metal_tempSpv_def vulkan_tempOut_def)

lemma Metal_from_Vulkan_sdk_set:
  "vulkan_sdk w = Some sdkPath \<Longrightarrow>
   std_system (spirv_cross_command sdkPath) w = (status, w2) \<Longrightarrow>
     Metal_from_Vulkan vResult w =
       (if \<not> success vResult then (Inr vResult, w)
        else if status = 0
        then (Inr \<lparr>success = True, output = read_text metal_tempMetal w2, binary = [],
                   errorMessage = ''Metal transpilation success!''\<rparr>, w2)
        else (Inr \<lparr>success = False, output = [], binary = [],
                   errorMessage = ''Metal transpilation failed!''\<rparr>, w2))"
  by (simp add: Metal_from_Vulkan_def)

text \<open>
  Claim C6 (the code departs from it). With \<open>VULKAN_SDK\<close> not set, the Vulkan step
  runs the assembler from its default path and returns \<open>success = true\<close>; the Metal
  converter then constructs a \<open>std::string\<close> from the null pointer \<open>getenv\<close> gave
  and never reaches the cross-compiler: the only command run is the assembler's, and
  no result is returned. \<open>TranspileToVulkan\<close> and \<open>TranspileToHLSL\<close> test the pointer
  and fall back to a default path.
\<close>

theorem TranspileToMetal_sdk_not_set:
  "fst (TranspileToMetal ''void main(){}'' Vertex (sample_world None 0)) =
     Inl Undefined_behaviour \<and>
   commands (snd (TranspileToMetal ''void main(){}'' Vertex (sample_world None 0))) =
     [glslang_command None] \<and>
   fst (Transpile ''void main(){}'' Metal Vertex (sample_world None 0)) =
     Inl Undefined_behaviour"
  by (simp add: Transpile_def dispatch_def TranspileToMetal_def TranspileToVulkan_def
      run_glslang_sample Metal_from_Vulkan_def vulkan_tempOut_def vulkan_tempIn_def
      sample_world_fields)

section \<open>The HLSL converter\<close>

lemma banner_without_inverse:
  "find_str (GetTargetVersionString HLSL @ [newline]) ''inverse'' = None"
  by code_simp

text \<open>
  The test for \<open>inverse\<close> is made on the banner, not on the converted text: the output
  is always the banner, a line break and the converted text, and the placeholder
  function is never in front of it.
\<close>

lemma TranspileToHLSL_output:
  "TranspileToHLSL glslSource stage w = (Inr result, w') \<Longrightarrow>
     output result = GetTargetVersionString HLSL @ [newline] @ hlsl_converted glslSource stage"
  by (auto simp: TranspileToHLSL_def Let_def banner_without_inverse
      split: prod.splits if_splits)

lemma TranspileToHLSL_sample:
  "fst (TranspileToHLSL glslSource stage (sample_world sdk 0)) =
     Inr \<lparr>success = True,
          output = ''// HLSL Shader (Target: Direct3D 11)'' @ [newline] @
                   hlsl_converted glslSource stage,
          binary = [], errorMessage = []\<rparr>"
  using banner_without_inverse
  by (simp add: TranspileToHLSL_def Let_def std_system_def sample_world_def
      ofstream_write_def)

lemma hlsl_converted_inverse:
  "hlsl_converted ''void main(){m=inverse(m);}'' Vertex = ''void main(){m=inverse(m);}''"
  by code_simp

text \<open>
  Claim C5 (the code departs from it). The converted text of
  \<^verbatim>\<open>void main(){m=inverse(m);}\<close> contains \<open>inverse\<close> (at position 14), and the output
  of the conversion is the banner and that text, with no placeholder function before
  it.
\<close>

theorem TranspileToHLSL_no_inverse_placeholder:
  "find_str (hlsl_converted ''void main(){m=inverse(m);}'' Vertex) ''inverse'' = Some 14 \<and>
   fst (TranspileToHLSL ''void main(){m=inverse(m);}'' Vertex (sample_world None 0)) =
     Inr \<lparr>success = True,
          output = ''// HLSL Shader (Target: Direct3D 11)'' @ [newline] @
                   ''void main(){m=inverse(m);}'',
          binary = [], errorMessage = []\<rparr>"
proof -
  have "find_str ''void main(){m=inverse(m);}'' ''inverse'' = Some 14" by code_simp
  then show ?thesis by (simp only: hlsl_converted_inverse TranspileToHLSL_sample)
qed

lemma hlsl_converted_version_core:
  "hlsl_converted (''#version 330 core'' @ [newline] @ ''void main(){}'') Vertex =
     ''#version 330 core'' @ [newline] @ ''void main(){}''"
  by code_simp

lemma hlsl_converted_version_plain:
  "hlsl_converted (''#version 450'' @ [newline] @ ''void main(){}'') Vertex =
     ''void main(){}''"
  by code_simp

text \<open>
  Claim C8 (the code departs from it). The directive \<^verbatim>\<open>#version 330 core\<close> is not
  removed: the pattern wants only white space between the number and the end of the
  line, so the line with the profile name stays in the output. (The line
  \<^verbatim>\<open>#version 450\<close> alone is removed: \<open>hlsl_converted_version_plain\<close>.)
\<close>

theorem TranspileToHLSL_keeps_version_core:
  "fst (TranspileToHLSL (''#version 330 core'' @ [newline] @ ''void main(){}'') Vertex
          (sample_world None 0)) =
     Inr \<lparr>success = True,
          output = ''// HLSL Shader (Target: Direct3D 11)'' @ [newline] @
                   ''#version 330 core'' @ [newline] @ ''void main(){}'',
          binary = [], errorMessage = []\<rparr>"
  by (simp only: hlsl_converted_version_core TranspileToHLSL_sample)

lemma ConvertUniformDeclarations_model:
  "ConvertUniformDeclarations (''uniform mat4 model;'' @ [newline] @ ''void main(){}'') HLSL =
     ''cbuffer Uniforms : register(b0)'' @ [newline] @ ''{'' @ [newline] @
     ''    float4x4 model;'' @ [newline] @
     ''mat4 model;'' @ [newline] @ ''void main(){}''"
  by code_simp

lemma hlsl_converted_model:
  "hlsl_converted (''uniform mat4 model;'' @ [newline] @ ''void main(){}'') Vertex =
     ''cbuffer Uniforms : register(b0)'' @ [newline] @ ''{'' @ [newline] @
     ''    float4x4 model;'' @ [newline] @
     ''float4x4 model;'' @ [newline] @ ''void main(){}''"
  by code_simp

text \<open>
  Claim C4 (the code departs from it). For \<^verbatim>\<open>uniform mat4 model;\<close> followed by
  \<^verbatim>\<open>void main(){}\<close> the conversion writes the header of the block and the member
  \<^verbatim>\<open>float4x4 model;\<close>, but the replacement takes only the word \<open>uniform\<close> and the
  white space after it out of the body (the lazy \<^verbatim>\<open>.*?\<close> at the end of the pattern
  matches nothing): the declaration stays as \<^verbatim>\<open>mat4 model;\<close>, and the block is not
  closed.
\<close>

theorem ConvertUniformDeclarations_keeps_declaration:
  "ConvertUniformDeclarations (''uniform mat4 model;'' @ [newline] @ ''void main(){}'') HLSL =
     ''cbuffer Uniforms : register(b0)'' @ [newline] @ ''{'' @ [newline] @
     ''    float4x4 model;'' @ [newline] @
     ''mat4 model;'' @ [newline] @ ''void main(){}'' \<and>
   fst (TranspileToHLSL (''uniform mat4 model;'' @ [newline] @ ''void main(){}'') Vertex
          (sample_world None 0)) =
     Inr \<lparr>success = True,
          output = ''// HLSL Shader (Target: Direct3D 11)'' @ [newline] @
                   ''cbuffer Uniforms : register(b0)'' @ [newline] @ ''{'' @ [newline] @
                   ''    float4x4 model;'' @ [newline] @
                   ''float4x4 model;'' @ [newline] @ ''void main(){}'',
          binary = [], errorMessage = []\<rparr>"
  by (simp only: ConvertUniformDeclarations_model hlsl_converted_model
      TranspileToHLSL_sample)

end
